theory Spec2Isabelle
  imports Main "HOL-Library.AList" "HOL-Library.Word"
begin

unbundle bit_operations_syntax

section \<open>Exchange deposit monitor (exchange-deposit-monitor.ts)\<close>

text \<open>
  The configuration constants of the monitor.  Amounts are \<open>bigint\<close> nanotons and
  time stamps are milliseconds, both modelled as \<open>int\<close>.
\<close>

definition MIN_CONFIRMATIONS :: int where
  "MIN_CONFIRMATIONS = 3"

definition MIN_DEPOSIT_AMOUNT :: int where
  "MIN_DEPOSIT_AMOUNT = 1000000000"

record UserDeposit =
  userId :: string
  transactionHash :: string
  amount :: int
  sender :: string
  timestamp :: int
  confirmations :: int

text \<open>
  \<open>DepositDatabase\<close>: the set of processed hashes and the map of pending deposits.  A
  JavaScript \<open>Map\<close> iterates in insertion order and \<open>set\<close> on a present key keeps the
  key's place, which is what \<open>AList.update\<close> does on an association list.
  \<open>creditUserAccount\<close> only prints in the source; the field \<open>credited\<close> records its
  calls (user, amount, transaction hash) in order, so that a credit is observable.
\<close>

record DepositDatabase =
  processedTxs :: "string set"
  pendingDeposits :: "(string \<times> UserDeposit) list"
  credited :: "(string \<times> int \<times> string) list"

definition isTransactionProcessed :: "DepositDatabase \<Rightarrow> string \<Rightarrow> bool" where
  "isTransactionProcessed db txHash = (txHash \<in> processedTxs db)"

definition markTransactionProcessed :: "string \<Rightarrow> DepositDatabase \<Rightarrow> DepositDatabase" where
  "markTransactionProcessed txHash db = db\<lparr>processedTxs := insert txHash (processedTxs db)\<rparr>"

definition creditUserAccount :: "string \<Rightarrow> int \<Rightarrow> string \<Rightarrow> DepositDatabase \<Rightarrow> DepositDatabase" where
  "creditUserAccount u a txHash db = db\<lparr>credited := credited db @ [(u, a, txHash)]\<rparr>"

text \<open>The lookup by deposit address is a stub in the source: it returns \<open>null\<close>.\<close>

definition getUserByAddress :: "string \<Rightarrow> string option" where
  "getUserByAddress address = None"

definition getUserByMemo :: "string \<Rightarrow> string option" where
  "getUserByMemo memo = (if take 8 memo = ''DEPOSIT:'' then Some (drop 8 memo) else Some memo)"

definition addPendingDeposit :: "UserDeposit \<Rightarrow> DepositDatabase \<Rightarrow> DepositDatabase" where
  "addPendingDeposit deposit db =
     db\<lparr>pendingDeposits := AList.update (transactionHash deposit) deposit (pendingDeposits db)\<rparr>"

definition getPendingDeposits :: "DepositDatabase \<Rightarrow> UserDeposit list" where
  "getPendingDeposits db = map snd (pendingDeposits db)"

definition removePendingDeposit :: "string \<Rightarrow> DepositDatabase \<Rightarrow> DepositDatabase" where
  "removePendingDeposit txHash db = db\<lparr>pendingDeposits := AList.delete txHash (pendingDeposits db)\<rparr>"

text \<open>
  The part of a transaction the monitor reads.  The hash is the hex string of
  \<open>tx.hash()\<close>; the body of the incoming message is the byte string of its cell.
\<close>

datatype MessageInfo = Internal string int | ExternalIn | ExternalOut

record Message =
  info :: MessageInfo
  body :: string

datatype TransactionDescription = Generic bool | NonGeneric

record Transaction =
  hashHex :: string
  inMessage :: "Message option"
  description :: TransactionDescription

text \<open>JavaScript truthiness of a \<open>string | null\<close>: neither \<open>null\<close> nor the empty string.\<close>

fun truthy :: "string option \<Rightarrow> bool" where
  "truthy None = False"
| "truthy (Some s) = (s \<noteq> [])"

text \<open>\<open>loadUint(32)\<close>: the first four bytes, big-endian.\<close>

definition loadUint32 :: "string \<Rightarrow> nat" where
  "loadUint32 bs = foldl (\<lambda>acc c. acc * 256 + of_char c) 0 (take 4 bs)"

definition extractComment :: "Transaction \<Rightarrow> string option" where
  "extractComment tx =
     (case inMessage tx of
        None \<Rightarrow> None
      | Some m \<Rightarrow>
          if 32 \<le> 8 * length (body m) then
            (if loadUint32 (body m) = 0 \<and> 8 \<le> 8 * length (drop 4 (body m))
             then Some (drop 4 (body m)) else None)
          else None)"

text \<open>
  \<open>processTransaction\<close> returns nothing in the source; the tag returned here names the
  branch taken, which the source shows by the message it prints.  \<open>now\<close> is the reading
  of \<open>Date.now()\<close>.  The lookup by address is a parameter of \<open>processTransactionWith\<close>,
  as the class \<open>DepositDatabase\<close> is the interface to be replaced by a real store;
  \<open>processTransaction\<close> is the monitor with the source's own stub.
\<close>

datatype Outcome =
  AlreadyProcessed | NotIncoming | DepositTooSmall | BouncedOrAborted | UserNotIdentified | NewDeposit

definition processTransactionWith ::
  "(string \<Rightarrow> string option) \<Rightarrow> int \<Rightarrow> Transaction \<Rightarrow> DepositDatabase \<Rightarrow> Outcome \<times> DepositDatabase" where
  "processTransactionWith byAddress now tx db =
     (let txHash = hashHex tx in
      if isTransactionProcessed db txHash then (AlreadyProcessed, db)
      else
        (case inMessage tx of
           None \<Rightarrow> (NotIncoming, db)
         | Some m \<Rightarrow>
            (case info m of
               ExternalIn \<Rightarrow> (NotIncoming, db)
             | ExternalOut \<Rightarrow> (NotIncoming, db)
             | Internal src coins \<Rightarrow>
                 if coins < MIN_DEPOSIT_AMOUNT then
                   (DepositTooSmall, markTransactionProcessed txHash db)
                 else if (case description tx of Generic aborted \<Rightarrow> aborted | NonGeneric \<Rightarrow> True) then
                   (BouncedOrAborted, markTransactionProcessed txHash db)
                 else
                   (let comment = extractComment tx;
                        byAddr = byAddress src;
                        user = (if \<not> truthy byAddr \<and> truthy comment
                                then getUserByMemo (the comment) else byAddr)
                    in if \<not> truthy user then
                         (UserNotIdentified, markTransactionProcessed txHash db)
                       else
                         (NewDeposit,
                          addPendingDeposit
                            \<lparr>userId = the user, transactionHash = txHash, amount = coins,
                             sender = src, timestamp = now, confirmations = 0\<rparr> db)))))"

definition processTransaction :: "int \<Rightarrow> Transaction \<Rightarrow> DepositDatabase \<Rightarrow> Outcome \<times> DepositDatabase" where
  "processTransaction = processTransactionWith getUserByAddress"

text \<open>
  \<open>processPendingDeposits\<close> walks the snapshot returned by \<open>getPendingDeposits\<close>.
  \<open>Date.now()\<close> is read once per deposit: \<open>clock i\<close> is the reading at the \<open>i\<close>-th
  deposit of the run.  \<open>Math.floor(t / 5000)\<close> on integers is \<open>div\<close>.
\<close>

fun processPendingLoop :: "(nat \<Rightarrow> int) \<Rightarrow> nat \<Rightarrow> UserDeposit list \<Rightarrow> DepositDatabase \<Rightarrow> DepositDatabase" where
  "processPendingLoop clock i [] db = db"
| "processPendingLoop clock i (deposit # rest) db =
     (let timeSinceDeposit = clock i - timestamp deposit;
          estimatedConfirmations = timeSinceDeposit div 5000
      in if estimatedConfirmations \<ge> MIN_CONFIRMATIONS then
           processPendingLoop clock (Suc i) rest
             (removePendingDeposit (transactionHash deposit)
               (markTransactionProcessed (transactionHash deposit)
                 (creditUserAccount (userId deposit) (amount deposit) (transactionHash deposit) db)))
         else processPendingLoop clock (Suc i) rest db)"

definition processPendingDeposits :: "(nat \<Rightarrow> int) \<Rightarrow> DepositDatabase \<Rightarrow> DepositDatabase" where
  "processPendingDeposits clock db = processPendingLoop clock 0 (getPendingDeposits db) db"

text \<open>The credits recorded for one transaction hash.\<close>

definition creditsFor :: "string \<Rightarrow> DepositDatabase \<Rightarrow> (string \<times> int \<times> string) list" where
  "creditsFor h db = filter (\<lambda>c. snd (snd c) = h) (credited db)"

text \<open>
  What the \<open>Map\<close> of pending deposits guarantees, given that \<open>addPendingDeposit\<close> is its
  only writer: keys are distinct, and every deposit is stored under its own hash.
\<close>

definition pendingKeyed :: "DepositDatabase \<Rightarrow> bool" where
  "pendingKeyed db =
     (distinct (map fst (pendingDeposits db)) \<and>
      map (transactionHash \<circ> snd) (pendingDeposits db) = map fst (pendingDeposits db))"

text \<open>Successive runs of \<open>processPendingDeposits\<close>, one per clock of the list.\<close>

fun advanceRuns :: "(nat \<Rightarrow> int) list \<Rightarrow> DepositDatabase \<Rightarrow> DepositDatabase" where
  "advanceRuns [] db = db"
| "advanceRuns (clock # clocks) db = advanceRuns clocks (processPendingDeposits clock db)"


text \<open>
  The life of the monitor as \<open>pollTransactions\<close> drives it: any sequence of
  observations (\<open>processTransaction\<close> at a clock reading) and confirmation runs.
\<close>

datatype MonitorStep = Observe int Transaction | Advance "nat \<Rightarrow> int"

fun monitorSteps :: "(string \<Rightarrow> string option) \<Rightarrow> MonitorStep list \<Rightarrow> DepositDatabase \<Rightarrow> DepositDatabase" where
  "monitorSteps byAddress [] db = db"
| "monitorSteps byAddress (Observe now tx # steps) db =
     monitorSteps byAddress steps (snd (processTransactionWith byAddress now tx db))"
| "monitorSteps byAddress (Advance clock # steps) db =
     monitorSteps byAddress steps (processPendingDeposits clock db)"

section \<open>Batch withdrawal processor (exchange-batch-withdrawal.ts)\<close>

definition SUBWALLET_ID :: nat where
  "SUBWALLET_ID = 0x10ad"

definition TIMEOUT :: nat where
  "TIMEOUT = 3600"

definition MAX_BATCH_SIZE :: nat where
  "MAX_BATCH_SIZE = 254"

text \<open>Decimal printing, for \<open>toString()\<close> and template strings.\<close>

fun decimal :: "nat \<Rightarrow> string" where
  "decimal n = (if n < 10 then [char_of (48 + n)] else decimal (n div 10) @ [char_of (48 + n mod 10)])"

declare decimal.simps [simp del]

definition decimalInt :: "int \<Rightarrow> string" where
  "decimalInt i = (if i < 0 then ''-'' @ decimal (nat (- i)) else decimal (nat i))"

record WithdrawalRequest =
  wdUserId :: string
  wdAddress :: string
  wdAmount :: int
  withdrawalId :: string

text \<open>
  \<open>WithdrawalDatabase\<close>.  \<open>markWithdrawalProcessing\<close> and \<open>markWithdrawalFailed\<close> only
  print in the source; \<open>markedProcessing\<close> and \<open>markedFailed\<close> record their calls.
\<close>

record WithdrawalDatabase =
  pendingWithdrawals :: "(string \<times> WithdrawalRequest) list"
  processedWithdrawals :: "string set"
  markedProcessing :: "string list"
  markedFailed :: "(string \<times> string) list"

definition getPendingWithdrawals :: "nat \<Rightarrow> WithdrawalDatabase \<Rightarrow> WithdrawalRequest list" where
  "getPendingWithdrawals limit wdb = take limit (map snd (pendingWithdrawals wdb))"

definition markWithdrawalProcessing :: "string \<Rightarrow> WithdrawalDatabase \<Rightarrow> WithdrawalDatabase" where
  "markWithdrawalProcessing wid wdb = wdb\<lparr>markedProcessing := markedProcessing wdb @ [wid]\<rparr>"

definition markWithdrawalCompleted :: "string \<Rightarrow> string \<Rightarrow> WithdrawalDatabase \<Rightarrow> WithdrawalDatabase" where
  "markWithdrawalCompleted wid txHash wdb =
     wdb\<lparr>processedWithdrawals := insert wid (processedWithdrawals wdb),
         pendingWithdrawals := AList.delete wid (pendingWithdrawals wdb)\<rparr>"

definition markWithdrawalFailed :: "string \<Rightarrow> string \<Rightarrow> WithdrawalDatabase \<Rightarrow> WithdrawalDatabase" where
  "markWithdrawalFailed wid err wdb = wdb\<lparr>markedFailed := markedFailed wdb @ [(wid, err)]\<rparr>"

definition addTestWithdrawal :: "WithdrawalRequest \<Rightarrow> WithdrawalDatabase \<Rightarrow> WithdrawalDatabase" where
  "addTestWithdrawal request wdb =
     wdb\<lparr>pendingWithdrawals := AList.update (withdrawalId request) request (pendingWithdrawals wdb)\<rparr>"

text \<open>
  Modelled from the spec: the wrapper \<open>HighloadQueryId\<close> (wrappers/HighloadQueryId.ts) is
  not among the sources.  Section 4.2 of the specification: the sequencer holds a position
  within an ordered id space bounded by the documented ceiling 8,380,415; \<open>next()\<close>
  advances and returns the next id and fails when the space is exhausted; \<open>hasNext()\<close> is
  a pure capacity check; a fresh sequencer is at position zero.
\<close>

datatype HighloadQueryId = QueryId nat

definition QUERY_ID_CEILING :: nat where
  "QUERY_ID_CEILING = 8380415"

definition newHighloadQueryId :: HighloadQueryId where
  "newHighloadQueryId = QueryId 0"

fun getQueryId :: "HighloadQueryId \<Rightarrow> nat" where
  "getQueryId (QueryId n) = n"

fun hasNext :: "HighloadQueryId \<Rightarrow> bool" where
  "hasNext (QueryId n) = (n < QUERY_ID_CEILING)"

fun getNext :: "HighloadQueryId \<Rightarrow> HighloadQueryId option" where
  "getNext (QueryId n) = (if n < QUERY_ID_CEILING then Some (QueryId (n + 1)) else None)"

text \<open>
  An outgoing message: send mode, destination, amount, bounce flag and the body as a
  byte string (the 32-bit text-comment op 0, then the comment).  \<open>Address.parse\<close> is the
  library's; it is a parameter \<open>parse\<close> that returns the parsed address or the error
  text.
\<close>

type_synonym Address = string

record OutActionSendMsg =
  mode :: nat
  dest :: Address
  msgCoins :: int
  bounce :: bool
  outBody :: string

definition PAY_GAS_SEPARATELY :: nat where
  "PAY_GAS_SEPARATELY = 1"

definition IGNORE_ERRORS :: nat where
  "IGNORE_ERRORS = 2"

record Batch =
  batchMessages :: "OutActionSendMsg list"
  batchSubwalletId :: nat
  batchQueryId :: HighloadQueryId
  batchTimeout :: nat
  batchCreatedAt :: int

text \<open>
  \<open>BatchWithdrawalProcessor\<close>: its database, the last query id, and the batches that
  \<open>sendBatch\<close> accepted, in order.
\<close>

record BatchWithdrawalProcessor =
  database :: WithdrawalDatabase
  lastQueryId :: HighloadQueryId
  sentBatches :: "Batch list"

datatype BatchError = QueryIdExhausted | SendFailed string

datatype BatchOutcome = NoPendingWithdrawals | NoValidMessages | BatchSent

fun withdrawalMessagesLoop ::
  "(string \<Rightarrow> string + Address) \<Rightarrow> WithdrawalRequest list \<Rightarrow> OutActionSendMsg list \<Rightarrow>
   WithdrawalDatabase \<Rightarrow> OutActionSendMsg list \<times> WithdrawalDatabase" where
  "withdrawalMessagesLoop parse [] messages wdb = (messages, wdb)"
| "withdrawalMessagesLoop parse (withdrawal # rest) messages wdb =
     (case parse (wdAddress withdrawal) of
        Inr destAddress \<Rightarrow>
          withdrawalMessagesLoop parse rest
            (messages @
              [\<lparr>mode = PAY_GAS_SEPARATELY + IGNORE_ERRORS, dest = destAddress,
                msgCoins = wdAmount withdrawal, bounce = False,
                outBody = [CHR 0x00, CHR 0x00, CHR 0x00, CHR 0x00] @ ''Withdrawal: '' @
                          withdrawalId withdrawal\<rparr>])
            wdb
      | Inl e \<Rightarrow>
          withdrawalMessagesLoop parse rest messages
            (markWithdrawalFailed (withdrawalId withdrawal) (''Invalid address: '' @ e) wdb))"

definition createWithdrawalMessages ::
  "(string \<Rightarrow> string + Address) \<Rightarrow> WithdrawalRequest list \<Rightarrow> WithdrawalDatabase \<Rightarrow>
   OutActionSendMsg list \<times> WithdrawalDatabase" where
  "createWithdrawalMessages parse withdrawals wdb = withdrawalMessagesLoop parse withdrawals [] wdb"

definition getNextQueryId ::
  "BatchWithdrawalProcessor \<Rightarrow> BatchError + (HighloadQueryId \<times> BatchWithdrawalProcessor)" where
  "getNextQueryId p =
     (if hasNext (lastQueryId p) then
        (case getNext (lastQueryId p) of
           Some q \<Rightarrow> Inr (q, p\<lparr>lastQueryId := q\<rparr>)
         | None \<Rightarrow> Inl QueryIdExhausted)
      else Inl QueryIdExhausted)"

text \<open>
  \<open>processBatch\<close>.  \<open>sendBatch\<close> is the wallet wrapper's call to the network: the
  parameter returns \<open>None\<close> when the batch is accepted and the error text when the call
  throws.  An error leaves the processor as it was when the exception was thrown.
  \<open>now\<close> is the reading of \<open>Date.now()\<close>.
\<close>

definition processBatch ::
  "(string \<Rightarrow> string + Address) \<Rightarrow> (Batch \<Rightarrow> string option) \<Rightarrow> int \<Rightarrow> BatchWithdrawalProcessor \<Rightarrow>
   (BatchError + BatchOutcome) \<times> BatchWithdrawalProcessor" where
  "processBatch parse sendBatch now p =
     (let withdrawals = getPendingWithdrawals MAX_BATCH_SIZE (database p) in
      if length withdrawals = 0 then (Inr NoPendingWithdrawals, p)
      else
        (let wdb1 = fold (\<lambda>w. markWithdrawalProcessing (withdrawalId w)) withdrawals (database p);
             (messages, wdb2) = createWithdrawalMessages parse withdrawals wdb1;
             p2 = p\<lparr>database := wdb2\<rparr>
         in if length messages = 0 then (Inr NoValidMessages, p2)
            else
              (case getNextQueryId p2 of
                 Inl e \<Rightarrow> (Inl e, p2)
               | Inr (queryId, p3) \<Rightarrow>
                  (let createdAt = now div 1000;
                       batch = \<lparr>batchMessages = messages, batchSubwalletId = SUBWALLET_ID,
                                batchQueryId = queryId, batchTimeout = TIMEOUT,
                                batchCreatedAt = createdAt\<rparr>
                   in case sendBatch batch of
                        Some err \<Rightarrow> (Inl (SendFailed err), p3)
                      | None \<Rightarrow>
                         (let simulatedTxHash =
                                ''batch_'' @ decimal (getQueryId queryId) @ ''_'' @ decimalInt createdAt;
                              wdb3 = fold (\<lambda>w. markWithdrawalCompleted (withdrawalId w) simulatedTxHash)
                                       withdrawals (database p3)
                          in (Inr BatchSent,
                              p3\<lparr>database := wdb3, sentBatches := sentBatches p3 @ [batch]\<rparr>))))))"

text \<open>\<open>n\<close> successive calls of \<open>getNextQueryId\<close>, collecting the ids returned.\<close>

fun nextQueryIds ::
  "nat \<Rightarrow> BatchWithdrawalProcessor \<Rightarrow> BatchError + (HighloadQueryId list \<times> BatchWithdrawalProcessor)" where
  "nextQueryIds 0 p = Inr ([], p)"
| "nextQueryIds (Suc n) p =
     (case getNextQueryId p of
        Inl e \<Rightarrow> Inl e
      | Inr (q, p') \<Rightarrow>
         (case nextQueryIds n p' of
            Inl e \<Rightarrow> Inl e
          | Inr (qs, p'') \<Rightarrow> Inr (q # qs, p'')))"

text \<open>The map of pending withdrawals, written only by \<open>addTestWithdrawal\<close>.\<close>

definition withdrawalsKeyed :: "WithdrawalDatabase \<Rightarrow> bool" where
  "withdrawalsKeyed wdb =
     (distinct (map fst (pendingWithdrawals wdb)) \<and>
      map (withdrawalId \<circ> snd) (pendingWithdrawals wdb) = map fst (pendingWithdrawals wdb))"

section \<open>Deposit address generator (exchange-address-generator.ts)\<close>

subsection \<open>SHA-256\<close>

text \<open>
  \<open>crypto.createHash('sha256')\<close> is the hash of the Node library.  The function it
  computes, SHA-256 of FIPS 180-4, is written out so that the generator can be evaluated
  on concrete user ids.  A digest is the list of its eight 32-bit words.  The round
  constants and the initial hash value are FIPS 180-4's, written in decimal.
\<close>

definition K256 :: "32 word list" where
  "K256 =
    [1116352408, 1899447441, 3049323471, 3921009573, 961987163, 1508970993, 2453635748, 2870763221,
     3624381080, 310598401, 607225278, 1426881987, 1925078388, 2162078206, 2614888103, 3248222580,
     3835390401, 4022224774, 264347078, 604807628, 770255983, 1249150122, 1555081692, 1996064986,
     2554220882, 2821834349, 2952996808, 3210313671, 3336571891, 3584528711, 113926993, 338241895,
     666307205, 773529912, 1294757372, 1396182291, 1695183700, 1986661051, 2177026350, 2456956037,
     2730485921, 2820302411, 3259730800, 3345764771, 3516065817, 3600352804, 4094571909, 275423344,
     430227734, 506948616, 659060556, 883997877, 958139571, 1322822218, 1537002063, 1747873779,
     1955562222, 2024104815, 2227730452, 2361852424, 2428436474, 2756734187, 3204031479, 3329325298]"

definition H256 :: "32 word list" where
  "H256 =
    [1779033703, 3144134277, 1013904242, 2773480762, 1359893119, 2600822924, 528734635, 1541459225]"

definition rotr32 :: "nat \<Rightarrow> 32 word \<Rightarrow> 32 word" where
  "rotr32 n x = drop_bit n x OR push_bit (32 - n) x"

definition smallSigma0 :: "32 word \<Rightarrow> 32 word" where
  "smallSigma0 x = rotr32 7 x XOR rotr32 18 x XOR drop_bit 3 x"

definition smallSigma1 :: "32 word \<Rightarrow> 32 word" where
  "smallSigma1 x = rotr32 17 x XOR rotr32 19 x XOR drop_bit 10 x"

definition bigSigma0 :: "32 word \<Rightarrow> 32 word" where
  "bigSigma0 x = rotr32 2 x XOR rotr32 13 x XOR rotr32 22 x"

definition bigSigma1 :: "32 word \<Rightarrow> 32 word" where
  "bigSigma1 x = rotr32 6 x XOR rotr32 11 x XOR rotr32 25 x"

definition choose32 :: "32 word \<Rightarrow> 32 word \<Rightarrow> 32 word \<Rightarrow> 32 word" where
  "choose32 x y z = (x AND y) XOR (NOT x AND z)"

definition majority32 :: "32 word \<Rightarrow> 32 word \<Rightarrow> 32 word \<Rightarrow> 32 word" where
  "majority32 x y z = (x AND y) XOR (x AND z) XOR (y AND z)"

text \<open>The message schedule; the list holds the words computed so far, latest first.\<close>

fun messageSchedule :: "nat \<Rightarrow> 32 word list \<Rightarrow> 32 word list" where
  "messageSchedule 0 ws = ws"
| "messageSchedule (Suc n) ws =
     messageSchedule n ((smallSigma1 (ws ! 1) + ws ! 6 + smallSigma0 (ws ! 14) + ws ! 15) # ws)"

fun shaRound :: "32 word list \<Rightarrow> 32 word \<times> 32 word \<Rightarrow> 32 word list" where
  "shaRound [a, b, c, d, e, f, g, h] (k, w) =
     (let t1 = h + bigSigma1 e + choose32 e f g + k + w;
          t2 = bigSigma0 a + majority32 a b c
      in [t1 + t2, a, b, c, d + t1, e, f, g])"
| "shaRound s kw = s"

definition bigEndian32 :: "int list \<Rightarrow> 32 word" where
  "bigEndian32 bs = word_of_int (foldl (\<lambda>acc b. acc * 256 + b) 0 bs)"

fun chunks :: "nat \<Rightarrow> nat \<Rightarrow> 'a list \<Rightarrow> 'a list list" where
  "chunks 0 k xs = []"
| "chunks (Suc n) k xs = take k xs # chunks n k (drop k xs)"

definition shaCompress :: "32 word list \<Rightarrow> int list \<Rightarrow> 32 word list" where
  "shaCompress hs block =
     (let w16 = map bigEndian32 (chunks 16 4 block);
          ws = rev (messageSchedule 48 (rev w16));
          s = foldl shaRound hs (zip K256 ws)
      in map2 (+) hs s)"

definition shaPad :: "int list \<Rightarrow> int list" where
  "shaPad m =
     (let l = length m; z = (119 - l mod 64) mod 64
      in m @ [128] @ replicate z 0 @
         map (\<lambda>i. (8 * int l) div 256 ^ i mod 256) [7, 6, 5, 4, 3, 2, 1, 0])"

definition sha256 :: "string \<Rightarrow> 32 word list" where
  "sha256 s =
     (let m = shaPad (map of_char s)
      in foldl shaCompress H256 (chunks (length m div 64) 64 m))"

text \<open>\<open>hash.readUInt32BE(0)\<close>: the first four bytes of the digest, that is its first word.\<close>

definition readUInt32BE0 :: "32 word list \<Rightarrow> int" where
  "readUInt32BE0 digest = uint (hd digest)"

subsection \<open>The mapping database and the generator\<close>

definition BASE_SUBWALLET_ID :: int where
  "BASE_SUBWALLET_ID = 0x10ad"

record AddressMappingDatabase =
  userToAddress :: "(string \<times> string) list"
  addressToUser :: "(string \<times> string) list"
  userToSubwalletId :: "(string \<times> int) list"
  nextUserId :: nat

definition createUserAddress ::
  "string \<Rightarrow> string \<Rightarrow> int \<Rightarrow> AddressMappingDatabase \<Rightarrow> AddressMappingDatabase" where
  "createUserAddress user address subwalletId adb =
     adb\<lparr>userToAddress := AList.update user address (userToAddress adb),
         addressToUser := AList.update address user (addressToUser adb),
         userToSubwalletId := AList.update user subwalletId (userToSubwalletId adb)\<rparr>"

text \<open>\<open>this.userToAddress.get(userId) || null\<close>: an empty string counts as absent.\<close>

definition getAddressForUser :: "AddressMappingDatabase \<Rightarrow> string \<Rightarrow> string option" where
  "getAddressForUser adb user =
     (case map_of (userToAddress adb) user of
        None \<Rightarrow> None
      | Some address \<Rightarrow> if address = [] then None else Some address)"

definition getAllMappings :: "AddressMappingDatabase \<Rightarrow> (string \<times> string \<times> int) list" where
  "getAllMappings adb =
     List.map_filter
       (\<lambda>(user, address). map_option (\<lambda>subwalletId. (user, address, subwalletId))
                             (map_of (userToSubwalletId adb) user))
       (userToAddress adb)"

text \<open>
  The generator: its database and base subwallet id (subwallet ids are JavaScript numbers,
  here \<open>int\<close>).  The wallet wrapper
  (\<open>HighloadWalletV3.createFromConfig\<close>, with the generator's code, public key and
  timeout) is not among the sources; \<open>walletAddress\<close>, the address string of the wallet
  with a given subwallet id, is a parameter.
\<close>

record ExchangeAddressGenerator =
  mappingDb :: AddressMappingDatabase
  baseSubwalletId :: int

datatype GeneratorError = NoUniqueSubwalletId string

text \<open>
  The collision-resolution loop (\<open>do ... while\<close>), with \<open>maxAttempts = 1000\<close>.  It
  returns the candidate id it stops at, or the error it throws.
\<close>

function subwalletLoop ::
  "string \<Rightarrow> int \<Rightarrow> nat \<Rightarrow> (string \<times> string \<times> int) list \<Rightarrow> GeneratorError + int" where
  "subwalletLoop user base nonce mappings =
     (let h = readUInt32BE0 (sha256 (user @ decimalInt base @ decimal nonce));
          subwalletId = (if h = 0 then base else h);
          nonce' = nonce + 1
      in if nonce' \<ge> 1000 then Inl (NoUniqueSubwalletId user)
         else if list_ex (\<lambda>m. snd (snd m) = subwalletId) mappings
              then subwalletLoop user base nonce' mappings
              else Inr subwalletId)"
  by pat_completeness auto
termination
  by (relation "measure (\<lambda>(user, base, nonce, mappings). 1000 - nonce)") auto

declare subwalletLoop.simps [simp del]

text \<open>
  \<open>getNextUserIdNumber\<close>: \<open>return this.nextUserId++\<close>.
\<close>

definition getNextUserIdNumber :: "AddressMappingDatabase \<Rightarrow> nat \<times> AddressMappingDatabase" where
  "getNextUserIdNumber adb = (nextUserId adb, adb\<lparr>nextUserId := nextUserId adb + 1\<rparr>)"

text \<open>
  \<open>generateDepositAddress\<close>.  The function begins with the lookup of a stored address
  and its early return, and ends by creating the wallet for \<open>subwalletId\<close>, storing the
  mapping with \<open>createUserAddress\<close> and returning the address.  The block in between,
  which binds \<open>subwalletId\<close>, is not well-formed in examples/exchange-address-generator.ts:
  the name is declared by \<open>let\<close> before the loop and again by \<open>const\<close> after it, in one
  scope, which the language rejects.  The model does not choose what that block computes:
  it is the parameter \<open>derive\<close>, which from the user id and the generator yields the
  subwallet id and the generator after the block, or the error thrown.
\<close>

type_synonym Derivation =
  "string \<Rightarrow> ExchangeAddressGenerator \<Rightarrow> GeneratorError + int \<times> ExchangeAddressGenerator"

definition generateDepositAddress ::
  "Derivation \<Rightarrow> (int \<Rightarrow> string) \<Rightarrow> string \<Rightarrow> ExchangeAddressGenerator \<Rightarrow>
   (GeneratorError + string) \<times> ExchangeAddressGenerator" where
  "generateDepositAddress derive walletAddress user g =
     (case getAddressForUser (mappingDb g) user of
        Some existingAddress \<Rightarrow> (Inr existingAddress, g)
      | None \<Rightarrow>
         (case derive user g of
            Inl e \<Rightarrow> (Inl e, g)
          | Inr (subwalletId, g1) \<Rightarrow>
             (let address = walletAddress subwalletId
              in (Inr address,
                  g1\<lparr>mappingDb := createUserAddress user address subwalletId (mappingDb g1)\<rparr>))))"

text \<open>
  Three blocks that can stand for \<open>derive\<close>.  \<open>sequentialDerivation\<close> is the block of the
  revision of this file that is among the sources and is well-formed: the base id plus
  \<open>getNextUserIdNumber()\<close>.  The other two are the two ways to read the ill-formed
  block: \<open>loopDerivation\<close> takes the id the loop stops at; \<open>redeclaredDerivation\<close> runs the
  loop and then takes the id of the declaration after it, the hash of the user id and the
  base id without a nonce.  The language gives neither reading.
\<close>

definition sequentialDerivation :: Derivation where
  "sequentialDerivation user g =
     (case getNextUserIdNumber (mappingDb g) of
        (userIdNumber, adb) \<Rightarrow> Inr (baseSubwalletId g + int userIdNumber, g\<lparr>mappingDb := adb\<rparr>))"

definition loopDerivation :: Derivation where
  "loopDerivation user g =
     (case subwalletLoop user (baseSubwalletId g) 0 (getAllMappings (mappingDb g)) of
        Inl e \<Rightarrow> Inl e
      | Inr subwalletId \<Rightarrow> Inr (subwalletId, g))"

definition redeclaredDerivation :: Derivation where
  "redeclaredDerivation user g =
     (case subwalletLoop user (baseSubwalletId g) 0 (getAllMappings (mappingDb g)) of
        Inl e \<Rightarrow> Inl e
      | Inr loopSubwalletId \<Rightarrow>
          Inr (readUInt32BE0 (sha256 (user @ decimalInt (baseSubwalletId g))), g))"

section \<open>Verified properties of the deposit monitor\<close>

subsection \<open>The pending map and the confirmation loop\<close>

lemma delete_keyed:
  "map (transactionHash \<circ> snd) al = map fst al \<Longrightarrow>
   map (transactionHash \<circ> snd) (AList.delete k al) = map fst (AList.delete k al)"
  by (induction al) (auto simp: AList.delete_eq)

lemma update_keyed:
  "map (transactionHash \<circ> snd) al = map fst al \<Longrightarrow> transactionHash d = k \<Longrightarrow>
   map (transactionHash \<circ> snd) (AList.update k d al) = map fst (AList.update k d al)"
  by (induction al) auto

lemma pendingKeyed_remove: "pendingKeyed db \<Longrightarrow> pendingKeyed (removePendingDeposit h db)"
  by (simp add: pendingKeyed_def removePendingDeposit_def distinct_delete delete_keyed)

lemma pendingKeyed_mark [simp]: "pendingKeyed (markTransactionProcessed h db) = pendingKeyed db"
  by (simp add: pendingKeyed_def markTransactionProcessed_def)

lemma pendingKeyed_credit [simp]: "pendingKeyed (creditUserAccount u a h db) = pendingKeyed db"
  by (simp add: pendingKeyed_def creditUserAccount_def)

lemma pendingKeyed_add: "pendingKeyed db \<Longrightarrow> pendingKeyed (addPendingDeposit d db)"
  by (simp add: pendingKeyed_def addPendingDeposit_def distinct_update update_keyed)

lemma loop_pendingKeyed:
  "pendingKeyed db \<Longrightarrow> pendingKeyed (processPendingLoop c i ds db)"
  by (induction ds arbitrary: i db) (auto simp: Let_def pendingKeyed_remove)

lemma loop_processed_mono:
  "h \<in> processedTxs db \<Longrightarrow> h \<in> processedTxs (processPendingLoop c i ds db)"
  by (induction ds arbitrary: i db)
     (auto simp: Let_def removePendingDeposit_def markTransactionProcessed_def creditUserAccount_def)

lemma loop_pending_subset:
  "h \<notin> fst ` set (pendingDeposits db) \<Longrightarrow>
   h \<notin> fst ` set (pendingDeposits (processPendingLoop c i ds db))"
proof (induction ds arbitrary: i db)
  case Nil
  then show ?case by simp
next
  case (Cons d ds)
  have "h \<notin> fst ` set (AList.delete k (pendingDeposits db))" for k
    using Cons.prems by (auto simp: AList.delete_eq)
  then show ?case using Cons
    by (auto simp: Let_def removePendingDeposit_def markTransactionProcessed_def creditUserAccount_def
        )
qed

lemma loop_credits_other:
  "h \<notin> transactionHash ` set ds \<Longrightarrow>
   creditsFor h (processPendingLoop c i ds db) = creditsFor h db"
proof (induction ds arbitrary: i db)
  case Nil
  then show ?case by simp
next
  case (Cons d ds)
  then show ?case
    by (auto simp: Let_def creditsFor_def removePendingDeposit_def markTransactionProcessed_def
        creditUserAccount_def)
qed

lemma loop_credits_hit:
  "k < length ds \<Longrightarrow> ds ! k = d \<Longrightarrow> distinct (map transactionHash ds) \<Longrightarrow>
   (c (i + k) - timestamp d) div 5000 \<ge> MIN_CONFIRMATIONS \<Longrightarrow>
   creditsFor (transactionHash d) (processPendingLoop c i ds db)
     = creditsFor (transactionHash d) db @ [(userId d, amount d, transactionHash d)]
   \<and> transactionHash d \<in> processedTxs (processPendingLoop c i ds db)
   \<and> transactionHash d \<notin> fst ` set (pendingDeposits (processPendingLoop c i ds db))"
proof (induction ds arbitrary: i k db)
  case Nil
  then show ?case by simp
next
  case (Cons e ds)
  show ?case
  proof (cases k)
    case 0
    then have e: "e = d" using Cons.prems by simp
    let ?db1 = "removePendingDeposit (transactionHash d)
               (markTransactionProcessed (transactionHash d)
                 (creditUserAccount (userId d) (amount d) (transactionHash d) db))"
    have notin: "transactionHash d \<notin> transactionHash ` set ds"
      using Cons.prems(3) e by auto
    have step: "processPendingLoop c i (e # ds) db = processPendingLoop c (Suc i) ds ?db1"
      using Cons.prems(4) 0 e by (simp add: Let_def)
    have c1: "creditsFor (transactionHash d) ?db1
              = creditsFor (transactionHash d) db @ [(userId d, amount d, transactionHash d)]"
      by (simp add: creditsFor_def removePendingDeposit_def markTransactionProcessed_def
          creditUserAccount_def)
    have p1: "transactionHash d \<in> processedTxs ?db1"
      by (simp add: removePendingDeposit_def markTransactionProcessed_def creditUserAccount_def)
    have q1: "transactionHash d \<notin> fst ` set (pendingDeposits ?db1)"
      by (simp add: removePendingDeposit_def delete_notin_dom)
    show ?thesis
      unfolding step
      using loop_credits_other[OF notin, of c "Suc i" ?db1] c1
        loop_processed_mono[OF p1, of c "Suc i" ds] loop_pending_subset[OF q1, of c "Suc i" ds]
      by simp
  next
    case (Suc k')
    have k': "k' < length ds" "ds ! k' = d" "distinct (map transactionHash ds)"
      "(c (Suc i + k') - timestamp d) div 5000 \<ge> MIN_CONFIRMATIONS"
      using Cons.prems Suc by auto
    have ne: "transactionHash e \<noteq> transactionHash d"
      using Cons.prems(3) k'(1,2) by auto
    let ?db1 = "removePendingDeposit (transactionHash e)
               (markTransactionProcessed (transactionHash e)
                 (creditUserAccount (userId e) (amount e) (transactionHash e) db))"
    have c1: "creditsFor (transactionHash d) ?db1 = creditsFor (transactionHash d) db"
      using ne by (simp add: creditsFor_def removePendingDeposit_def markTransactionProcessed_def
          creditUserAccount_def)
    show ?thesis
    proof (cases "(c i - timestamp e) div 5000 \<ge> MIN_CONFIRMATIONS")
      case True
      then have step: "processPendingLoop c i (e # ds) db = processPendingLoop c (Suc i) ds ?db1"
        by (simp add: Let_def)
      show ?thesis unfolding step using Cons.IH[OF k', of ?db1] c1 by simp
    next
      case False
      then have step: "processPendingLoop c i (e # ds) db = processPendingLoop c (Suc i) ds db"
        by (simp add: Let_def)
      show ?thesis unfolding step using Cons.IH[OF k', of db] by simp
    qed
  qed
qed

lemma snapshot_hashes:
  "pendingKeyed db \<Longrightarrow> map transactionHash (getPendingDeposits db) = map fst (pendingDeposits db)"
  by (simp add: pendingKeyed_def getPendingDeposits_def)

lemma advance_pendingKeyed: "pendingKeyed db \<Longrightarrow> pendingKeyed (processPendingDeposits c db)"
  by (simp add: processPendingDeposits_def loop_pendingKeyed)

lemma advance_absent:
  assumes "pendingKeyed db" and "h \<notin> fst ` set (pendingDeposits db)"
  shows "creditsFor h (processPendingDeposits c db) = creditsFor h db"
    and "h \<notin> fst ` set (pendingDeposits (processPendingDeposits c db))"
proof -
  have "set (map transactionHash (getPendingDeposits db)) = set (map fst (pendingDeposits db))"
    using snapshot_hashes[OF assms(1)] by simp
  then have "h \<notin> transactionHash ` set (getPendingDeposits db)"
    using assms(2) by simp
  then show "creditsFor h (processPendingDeposits c db) = creditsFor h db"
    by (simp add: processPendingDeposits_def loop_credits_other)
  show "h \<notin> fst ` set (pendingDeposits (processPendingDeposits c db))"
    using assms(2) by (simp add: processPendingDeposits_def loop_pending_subset)
qed

lemma advance_processed_mono:
  "h \<in> processedTxs db \<Longrightarrow> h \<in> processedTxs (processPendingDeposits c db)"
  by (simp add: processPendingDeposits_def loop_processed_mono)

lemma advanceRuns_absent:
  "pendingKeyed db \<Longrightarrow> h \<notin> fst ` set (pendingDeposits db) \<Longrightarrow> h \<in> processedTxs db \<Longrightarrow>
   creditsFor h (advanceRuns cs db) = creditsFor h db
   \<and> h \<in> processedTxs (advanceRuns cs db)
   \<and> h \<notin> fst ` set (pendingDeposits (advanceRuns cs db))"
proof (induction cs arbitrary: db)
  case Nil
  then show ?case by simp
next
  case (Cons c cs)
  have "pendingKeyed (processPendingDeposits c db)"
    using Cons.prems(1) by (rule advance_pendingKeyed)
  moreover have "h \<notin> fst ` set (pendingDeposits (processPendingDeposits c db))"
    using Cons.prems(1,2) by (rule advance_absent(2))
  moreover have "h \<in> processedTxs (processPendingDeposits c db)"
    using Cons.prems(3) by (rule advance_processed_mono)
  ultimately have "creditsFor h (advanceRuns cs (processPendingDeposits c db))
      = creditsFor h (processPendingDeposits c db)
   \<and> h \<in> processedTxs (advanceRuns cs (processPendingDeposits c db))
   \<and> h \<notin> fst ` set (pendingDeposits (advanceRuns cs (processPendingDeposits c db)))"
    by (rule Cons.IH)
  moreover have "creditsFor h (processPendingDeposits c db) = creditsFor h db"
    using Cons.prems(1,2) by (rule advance_absent(1))
  ultimately show ?case by simp
qed

lemma advance_hit:
  assumes "pendingKeyed db" and "k < length (pendingDeposits db)"
    and "pendingDeposits db ! k = (h, d)"
    and "MIN_CONFIRMATIONS \<le> (c k - timestamp d) div 5000"
  shows "creditsFor h (processPendingDeposits c db) = creditsFor h db @ [(userId d, amount d, h)]
   \<and> h \<in> processedTxs (processPendingDeposits c db)
   \<and> h \<notin> fst ` set (pendingDeposits (processPendingDeposits c db))"
proof -
  have len: "k < length (getPendingDeposits db)"
    using assms(2) by (simp add: getPendingDeposits_def)
  have nth: "getPendingDeposits db ! k = d"
    using assms(2,3) by (simp add: getPendingDeposits_def)
  have dist: "distinct (map transactionHash (getPendingDeposits db))"
    using assms(1) snapshot_hashes[OF assms(1)] by (simp add: pendingKeyed_def)
  have "map transactionHash (getPendingDeposits db) ! k = map fst (pendingDeposits db) ! k"
    using snapshot_hashes[OF assms(1)] by simp
  then have h: "transactionHash d = h"
    using len nth assms(2,3) by simp
  have thr: "MIN_CONFIRMATIONS \<le> (c (0 + k) - timestamp d) div 5000"
    using assms(4) by simp
  show ?thesis
    using loop_credits_hit[where c = c and i = 0 and k = k and d = d and db = db
        and ds = "getPendingDeposits db"] len nth dist thr h
    by (simp add: processPendingDeposits_def)
qed

text \<open>
  Claim C1.  Let a deposit \<open>d\<close> be pending under the hash \<open>h\<close> at position \<open>k\<close> of the
  pending map, and let the run with clock \<open>c\<close> find it at the confirmation threshold
  (\<open>MIN_CONFIRMATIONS \<le> (c k - timestamp d) div 5000\<close>).  Then after that run and any
  number of further runs \<open>cs\<close> of \<open>processPendingDeposits\<close>, exactly one credit
  \<open>(userId d, amount d, h)\<close> has been added for \<open>h\<close>; the first run already added it,
  marked \<open>h\<close> processed and removed it from the pending map, and the later runs add
  nothing for \<open>h\<close>.
\<close>

theorem credited_exactly_once:
  assumes "pendingKeyed db" and "k < length (pendingDeposits db)"
    and "pendingDeposits db ! k = (h, d)"
    and "MIN_CONFIRMATIONS \<le> (c k - timestamp d) div 5000"
  shows "creditsFor h (advanceRuns (c # cs) db) = creditsFor h db @ [(userId d, amount d, h)]
   \<and> creditsFor h (advanceRuns (c # cs) db) = creditsFor h (processPendingDeposits c db)
   \<and> h \<in> processedTxs (advanceRuns (c # cs) db)
   \<and> h \<notin> fst ` set (pendingDeposits (advanceRuns (c # cs) db))"
proof -
  let ?db1 = "processPendingDeposits c db"
  have first: "creditsFor h ?db1 = creditsFor h db @ [(userId d, amount d, h)]
   \<and> h \<in> processedTxs ?db1 \<and> h \<notin> fst ` set (pendingDeposits ?db1)"
    using assms by (rule advance_hit)
  have later: "creditsFor h (advanceRuns cs ?db1) = creditsFor h ?db1
   \<and> h \<in> processedTxs (advanceRuns cs ?db1)
   \<and> h \<notin> fst ` set (pendingDeposits (advanceRuns cs ?db1))"
    using advanceRuns_absent[where db = ?db1 and h = h and cs = cs]
      advance_pendingKeyed[OF assms(1), of c] first by blast
  show ?thesis using first later by simp
qed

theorem credited_exactly_once_witness:
  "creditsFor ''ab''
     (advanceRuns [\<lambda>_. 20000, \<lambda>_. 25000, \<lambda>_. 30000]
        \<lparr>processedTxs = {}, pendingDeposits =
           [(''ab'', \<lparr>userId = ''alice'', transactionHash = ''ab'', amount = 2000000000,
                     sender = ''EQsender'', timestamp = 1000, confirmations = 0\<rparr>)],
          credited = []\<rparr>)
   = [(''alice'', 2000000000, ''ab'')]"
  using credited_exactly_once [of
      "\<lparr>processedTxs = {}, pendingDeposits =
           [(''ab'', \<lparr>userId = ''alice'', transactionHash = ''ab'', amount = 2000000000,
                     sender = ''EQsender'', timestamp = 1000, confirmations = 0\<rparr>)],
          credited = []\<rparr>"
      0 "''ab''"
      "\<lparr>userId = ''alice'', transactionHash = ''ab'', amount = 2000000000,
                     sender = ''EQsender'', timestamp = 1000, confirmations = 0\<rparr>"
      "\<lambda>_. 20000" "[\<lambda>_. 25000, \<lambda>_. 30000]"]
  by (simp add: pendingKeyed_def MIN_CONFIRMATIONS_def creditsFor_def)

subsection \<open>Observations\<close>

lemma mark_fields [simp]:
  "processedTxs (markTransactionProcessed h db) = insert h (processedTxs db)"
  "pendingDeposits (markTransactionProcessed h db) = pendingDeposits db"
  "credited (markTransactionProcessed h db) = credited db"
  by (simp_all add: markTransactionProcessed_def)

lemma add_fields [simp]:
  "processedTxs (addPendingDeposit d db) = processedTxs db"
  "pendingDeposits (addPendingDeposit d db) = AList.update (transactionHash d) d (pendingDeposits db)"
  "credited (addPendingDeposit d db) = credited db"
  by (simp_all add: addPendingDeposit_def)

lemma creditsFor_mark [simp]: "creditsFor h (markTransactionProcessed k db) = creditsFor h db"
  by (simp add: creditsFor_def)

lemma creditsFor_add [simp]: "creditsFor h (addPendingDeposit d db) = creditsFor h db"
  by (simp add: creditsFor_def)

lemma observe_keeps_rejected:
  assumes "pendingKeyed db" and "h \<notin> fst ` set (pendingDeposits db)" and "h \<in> processedTxs db"
  shows "pendingKeyed (snd (processTransactionWith f now tx db))
    \<and> h \<notin> fst ` set (pendingDeposits (snd (processTransactionWith f now tx db)))
    \<and> h \<in> processedTxs (snd (processTransactionWith f now tx db))
    \<and> creditsFor h (snd (processTransactionWith f now tx db)) = creditsFor h db"
proof (cases "isTransactionProcessed db (hashHex tx)")
  case True
  then show ?thesis using assms by (simp add: processTransactionWith_def)
next
  case False
  then have ne: "hashHex tx \<noteq> h"
    using assms(3) by (auto simp: isTransactionProcessed_def)
  have add: "pendingKeyed (addPendingDeposit d db)
      \<and> h \<notin> fst ` set (pendingDeposits (addPendingDeposit d db))"
    if "transactionHash d = hashHex tx" for d
    using that ne assms(1,2) pendingKeyed_add[OF assms(1), of d] by (simp add: dom_update)
  show ?thesis
    using False assms add
    by (simp add: processTransactionWith_def Let_def
        split: option.splits MessageInfo.splits TransactionDescription.splits)
qed

lemma monitorSteps_never_credits:
  "pendingKeyed db \<Longrightarrow> h \<notin> fst ` set (pendingDeposits db) \<Longrightarrow> h \<in> processedTxs db \<Longrightarrow>
   creditsFor h (monitorSteps f steps db) = creditsFor h db"
proof (induction steps arbitrary: db)
  case Nil
  then show ?case by simp
next
  case (Cons s steps)
  show ?case
  proof (cases s)
    case (Observe now tx)
    let ?db1 = "snd (processTransactionWith f now tx db)"
    have inv: "pendingKeyed ?db1 \<and> h \<notin> fst ` set (pendingDeposits ?db1) \<and> h \<in> processedTxs ?db1
      \<and> creditsFor h ?db1 = creditsFor h db"
      using Cons.prems by (rule observe_keeps_rejected)
    then have "creditsFor h (monitorSteps f steps ?db1) = creditsFor h ?db1"
      using Cons.IH[of ?db1] by blast
    then show ?thesis using inv Observe by simp
  next
    case (Advance c)
    let ?db1 = "processPendingDeposits c db"
    have "pendingKeyed ?db1" using Cons.prems(1) by (rule advance_pendingKeyed)
    moreover have "h \<notin> fst ` set (pendingDeposits ?db1)"
      using Cons.prems(1,2) by (rule advance_absent(2))
    moreover have "h \<in> processedTxs ?db1" using Cons.prems(3) by (rule advance_processed_mono)
    ultimately have "creditsFor h (monitorSteps f steps ?db1) = creditsFor h ?db1"
      by (rule Cons.IH)
    moreover have "creditsFor h ?db1 = creditsFor h db"
      using Cons.prems(1,2) by (rule advance_absent(1))
    ultimately show ?thesis using Advance by simp
  qed
qed

text \<open>
  Claim C7.  For a transaction that is not yet processed, is an incoming internal message,
  carries at least the minimum amount and is neither bounced nor aborted, the user is
  resolved in this order: the lookup of the sender address when it yields a user; else,
  when a text comment is present, \<open>getUserByMemo\<close> of the comment (the text after
  \<open>DEPOSIT:\<close>, or the whole comment); and when neither yields a user the transaction is
  rejected: its hash is marked processed, nothing is added to the pending map, and,
  provided the hash was not pending before, no later sequence of observations and
  confirmation runs ever records a credit for it.  The lookup by address is any function;
  the source's own \<open>getUserByAddress\<close> is the stub that never yields a user.
\<close>

theorem user_resolution:
  assumes "\<not> isTransactionProcessed db (hashHex tx)"
    and "inMessage tx = Some m" and "info m = Internal src coins"
    and "MIN_DEPOSIT_AMOUNT \<le> coins" and "description tx = Generic False"
  shows
   "(truthy (byAddress src) \<longrightarrow>
       processTransactionWith byAddress now tx db =
         (NewDeposit, addPendingDeposit
            \<lparr>userId = the (byAddress src), transactionHash = hashHex tx, amount = coins,
             sender = src, timestamp = now, confirmations = 0\<rparr> db))
  \<and> (\<not> truthy (byAddress src) \<and> truthy (extractComment tx)
       \<and> truthy (getUserByMemo (the (extractComment tx))) \<longrightarrow>
       processTransactionWith byAddress now tx db =
         (NewDeposit, addPendingDeposit
            \<lparr>userId = the (getUserByMemo (the (extractComment tx))), transactionHash = hashHex tx,
             amount = coins, sender = src, timestamp = now, confirmations = 0\<rparr> db))
  \<and> (\<not> truthy (byAddress src) \<and> \<not> (truthy (extractComment tx)
       \<and> truthy (getUserByMemo (the (extractComment tx)))) \<longrightarrow>
       processTransactionWith byAddress now tx db =
         (UserNotIdentified, markTransactionProcessed (hashHex tx) db)
       \<and> (pendingKeyed db \<and> hashHex tx \<notin> fst ` set (pendingDeposits db) \<longrightarrow>
            (\<forall>steps. creditsFor (hashHex tx)
               (monitorSteps byAddress steps (markTransactionProcessed (hashHex tx) db))
              = creditsFor (hashHex tx) db)))"
proof -
  have never: "creditsFor (hashHex tx)
        (monitorSteps byAddress steps (markTransactionProcessed (hashHex tx) db))
      = creditsFor (hashHex tx) db"
    if "pendingKeyed db" "hashHex tx \<notin> fst ` set (pendingDeposits db)" for steps
    using monitorSteps_never_credits[where db = "markTransactionProcessed (hashHex tx) db"
        and h = "hashHex tx" and f = byAddress and steps = steps] that
    by simp
  show ?thesis
    using assms never
    by (auto simp: processTransactionWith_def Let_def)
qed

theorem user_resolution_witness:
  "processTransaction 1000
     \<lparr>hashHex = ''ab'',
      inMessage = Some \<lparr>info = Internal ''EQsender'' 2000000000,
                        body = [CHR 0x00, CHR 0x00, CHR 0x00, CHR 0x00] @ ''DEPOSIT:alice''\<rparr>,
      description = Generic False\<rparr>
     \<lparr>processedTxs = {}, pendingDeposits = [], credited = []\<rparr>
   = (NewDeposit,
      \<lparr>processedTxs = {},
       pendingDeposits = [(''ab'', \<lparr>userId = ''alice'', transactionHash = ''ab'',
          amount = 2000000000, sender = ''EQsender'', timestamp = 1000, confirmations = 0\<rparr>)],
       credited = []\<rparr>)
 \<and> processTransaction 1000
     \<lparr>hashHex = ''cd'',
      inMessage = Some \<lparr>info = Internal ''EQsender'' 2000000000, body = []\<rparr>,
      description = Generic False\<rparr>
     \<lparr>processedTxs = {}, pendingDeposits = [], credited = []\<rparr>
   = (UserNotIdentified, \<lparr>processedTxs = {''cd''}, pendingDeposits = [], credited = []\<rparr>)"
  using
    user_resolution [of "\<lparr>processedTxs = {}, pendingDeposits = [], credited = []\<rparr>"
      "\<lparr>hashHex = ''ab'',
        inMessage = Some \<lparr>info = Internal ''EQsender'' 2000000000,
                          body = [CHR 0x00, CHR 0x00, CHR 0x00, CHR 0x00] @ ''DEPOSIT:alice''\<rparr>,
        description = Generic False\<rparr>"
      "\<lparr>info = Internal ''EQsender'' 2000000000,
        body = [CHR 0x00, CHR 0x00, CHR 0x00, CHR 0x00] @ ''DEPOSIT:alice''\<rparr>"
      "''EQsender''" 2000000000 getUserByAddress 1000]
    user_resolution [of "\<lparr>processedTxs = {}, pendingDeposits = [], credited = []\<rparr>"
      "\<lparr>hashHex = ''cd'',
        inMessage = Some \<lparr>info = Internal ''EQsender'' 2000000000, body = []\<rparr>,
        description = Generic False\<rparr>"
      "\<lparr>info = Internal ''EQsender'' 2000000000, body = []\<rparr>"
      "''EQsender''" 2000000000 getUserByAddress 1000]
  by (simp add: processTransaction_def isTransactionProcessed_def MIN_DEPOSIT_AMOUNT_def
      getUserByAddress_def getUserByMemo_def extractComment_def loadUint32_def
      addPendingDeposit_def markTransactionProcessed_def)

text \<open>
  Claim C8.  A transaction that reaches the amount check (not yet processed, incoming
  internal message) is rejected by it exactly when its amount is below 1,000,000,000
  nanotons; a rejected one is marked processed, and neither the pending map nor the
  recorded credits change.  The witness evaluates 999,999,999 (rejected) and
  1,000,000,000 (not rejected by the amount check).
\<close>

theorem minimum_deposit_check:
  assumes "\<not> isTransactionProcessed db (hashHex tx)"
    and "inMessage tx = Some m" and "info m = Internal src coins"
  shows
   "(fst (processTransactionWith byAddress now tx db) = DepositTooSmall \<longleftrightarrow> coins < 1000000000)
  \<and> (coins < 1000000000 \<longrightarrow>
       snd (processTransactionWith byAddress now tx db) = markTransactionProcessed (hashHex tx) db
       \<and> hashHex tx \<in> processedTxs (snd (processTransactionWith byAddress now tx db))
       \<and> pendingDeposits (snd (processTransactionWith byAddress now tx db)) = pendingDeposits db
       \<and> credited (snd (processTransactionWith byAddress now tx db)) = credited db)"
  using assms
  by (auto simp: processTransactionWith_def Let_def MIN_DEPOSIT_AMOUNT_def
      split: TransactionDescription.splits)

theorem minimum_deposit_check_witness:
  "fst (processTransaction 1000
     \<lparr>hashHex = ''ab'',
      inMessage = Some \<lparr>info = Internal ''EQsender'' 999999999,
                        body = [CHR 0x00, CHR 0x00, CHR 0x00, CHR 0x00] @ ''alice''\<rparr>,
      description = Generic False\<rparr>
     \<lparr>processedTxs = {}, pendingDeposits = [], credited = []\<rparr>) = DepositTooSmall
 \<and> snd (processTransaction 1000
     \<lparr>hashHex = ''ab'',
      inMessage = Some \<lparr>info = Internal ''EQsender'' 999999999,
                        body = [CHR 0x00, CHR 0x00, CHR 0x00, CHR 0x00] @ ''alice''\<rparr>,
      description = Generic False\<rparr>
     \<lparr>processedTxs = {}, pendingDeposits = [], credited = []\<rparr>)
    = \<lparr>processedTxs = {''ab''}, pendingDeposits = [], credited = []\<rparr>
 \<and> fst (processTransaction 1000
     \<lparr>hashHex = ''ab'',
      inMessage = Some \<lparr>info = Internal ''EQsender'' 1000000000,
                        body = [CHR 0x00, CHR 0x00, CHR 0x00, CHR 0x00] @ ''alice''\<rparr>,
      description = Generic False\<rparr>
     \<lparr>processedTxs = {}, pendingDeposits = [], credited = []\<rparr>) \<noteq> DepositTooSmall"
  using
    minimum_deposit_check [of "\<lparr>processedTxs = {}, pendingDeposits = [], credited = []\<rparr>"
      "\<lparr>hashHex = ''ab'',
        inMessage = Some \<lparr>info = Internal ''EQsender'' 999999999,
                          body = [CHR 0x00, CHR 0x00, CHR 0x00, CHR 0x00] @ ''alice''\<rparr>,
        description = Generic False\<rparr>"
      "\<lparr>info = Internal ''EQsender'' 999999999,
        body = [CHR 0x00, CHR 0x00, CHR 0x00, CHR 0x00] @ ''alice''\<rparr>"
      "''EQsender''" 999999999 getUserByAddress 1000]
    minimum_deposit_check [of "\<lparr>processedTxs = {}, pendingDeposits = [], credited = []\<rparr>"
      "\<lparr>hashHex = ''ab'',
        inMessage = Some \<lparr>info = Internal ''EQsender'' 1000000000,
                          body = [CHR 0x00, CHR 0x00, CHR 0x00, CHR 0x00] @ ''alice''\<rparr>,
        description = Generic False\<rparr>"
      "\<lparr>info = Internal ''EQsender'' 1000000000,
        body = [CHR 0x00, CHR 0x00, CHR 0x00, CHR 0x00] @ ''alice''\<rparr>"
      "''EQsender''" 1000000000 getUserByAddress 1000]
  by (simp add: processTransaction_def isTransactionProcessed_def markTransactionProcessed_def)

text \<open>
  Claim C3 fails on the code.  A deposit that is pending but not yet credited is not in
  the processed set, so observing its transaction a second time stores the deposit again
  with a fresh time stamp.  Observed at 1000 ms and again at 11000 ms (the next poll), the
  pending map differs from the one after a single observation, and the confirmation run
  at 16000 ms that credits the deposit observed once credits nothing after the second
  observation.
\<close>

theorem reobserved_pending_deposit_restarts:
  "pendingDeposits (snd (processTransaction 1000
     \<lparr>hashHex = ''ab'',
      inMessage = Some \<lparr>info = Internal ''EQsender'' 2000000000,
                        body = [CHR 0x00, CHR 0x00, CHR 0x00, CHR 0x00] @ ''alice''\<rparr>,
      description = Generic False\<rparr>
     \<lparr>processedTxs = {}, pendingDeposits = [], credited = []\<rparr>))
   = [(''ab'', \<lparr>userId = ''alice'', transactionHash = ''ab'', amount = 2000000000,
               sender = ''EQsender'', timestamp = 1000, confirmations = 0\<rparr>)]
 \<and> pendingDeposits (snd (processTransaction 11000
     \<lparr>hashHex = ''ab'',
      inMessage = Some \<lparr>info = Internal ''EQsender'' 2000000000,
                        body = [CHR 0x00, CHR 0x00, CHR 0x00, CHR 0x00] @ ''alice''\<rparr>,
      description = Generic False\<rparr>
     (snd (processTransaction 1000
       \<lparr>hashHex = ''ab'',
        inMessage = Some \<lparr>info = Internal ''EQsender'' 2000000000,
                          body = [CHR 0x00, CHR 0x00, CHR 0x00, CHR 0x00] @ ''alice''\<rparr>,
        description = Generic False\<rparr>
       \<lparr>processedTxs = {}, pendingDeposits = [], credited = []\<rparr>))))
   = [(''ab'', \<lparr>userId = ''alice'', transactionHash = ''ab'', amount = 2000000000,
               sender = ''EQsender'', timestamp = 11000, confirmations = 0\<rparr>)]
 \<and> credited (processPendingDeposits (\<lambda>i. 16000) (snd (processTransaction 1000
     \<lparr>hashHex = ''ab'',
      inMessage = Some \<lparr>info = Internal ''EQsender'' 2000000000,
                        body = [CHR 0x00, CHR 0x00, CHR 0x00, CHR 0x00] @ ''alice''\<rparr>,
      description = Generic False\<rparr>
     \<lparr>processedTxs = {}, pendingDeposits = [], credited = []\<rparr>)))
   = [(''alice'', 2000000000, ''ab'')]
 \<and> credited (processPendingDeposits (\<lambda>i. 16000) (snd (processTransaction 11000
     \<lparr>hashHex = ''ab'',
      inMessage = Some \<lparr>info = Internal ''EQsender'' 2000000000,
                        body = [CHR 0x00, CHR 0x00, CHR 0x00, CHR 0x00] @ ''alice''\<rparr>,
      description = Generic False\<rparr>
     (snd (processTransaction 1000
       \<lparr>hashHex = ''ab'',
        inMessage = Some \<lparr>info = Internal ''EQsender'' 2000000000,
                          body = [CHR 0x00, CHR 0x00, CHR 0x00, CHR 0x00] @ ''alice''\<rparr>,
        description = Generic False\<rparr>
       \<lparr>processedTxs = {}, pendingDeposits = [], credited = []\<rparr>)))))
   = []"
  by (simp add: processTransaction_def processTransactionWith_def Let_def
      isTransactionProcessed_def MIN_DEPOSIT_AMOUNT_def MIN_CONFIRMATIONS_def
      getUserByAddress_def getUserByMemo_def extractComment_def loadUint32_def
      addPendingDeposit_def markTransactionProcessed_def processPendingDeposits_def
      getPendingDeposits_def creditUserAccount_def removePendingDeposit_def)

section \<open>Verified properties of the batch withdrawal processor\<close>

subsection \<open>The query id sequencer\<close>

lemma getNextQueryId_step:
  "getQueryId (lastQueryId p) < QUERY_ID_CEILING \<Longrightarrow>
   getNextQueryId p =
     Inr (QueryId (getQueryId (lastQueryId p) + 1),
          p\<lparr>lastQueryId := QueryId (getQueryId (lastQueryId p) + 1)\<rparr>)"
  by (cases "lastQueryId p") (simp add: getNextQueryId_def)

lemma getNextQueryId_exhausted:
  "\<not> hasNext (lastQueryId p) \<Longrightarrow> getNextQueryId p = Inl QueryIdExhausted"
  by (simp add: getNextQueryId_def)

lemma nextQueryIds_run:
  "getQueryId (lastQueryId p) + n \<le> QUERY_ID_CEILING \<Longrightarrow>
   nextQueryIds n p =
     Inr (map QueryId [getQueryId (lastQueryId p) + 1 ..< getQueryId (lastQueryId p) + 1 + n],
          p\<lparr>lastQueryId := QueryId (getQueryId (lastQueryId p) + n)\<rparr>)"
proof (induction n arbitrary: p)
  case 0
  then show ?case by (cases "lastQueryId p") simp
next
  case (Suc n)
  let ?pos = "getQueryId (lastQueryId p)"
  let ?p1 = "p\<lparr>lastQueryId := QueryId (?pos + 1)\<rparr>"
  have step: "getNextQueryId p = Inr (QueryId (?pos + 1), ?p1)"
    using Suc.prems by (simp add: getNextQueryId_step)
  have "getQueryId (lastQueryId ?p1) + n \<le> QUERY_ID_CEILING"
    using Suc.prems by simp
  then have rest: "nextQueryIds n ?p1 =
     Inr (map QueryId [?pos + 2 ..< ?pos + 2 + n], ?p1\<lparr>lastQueryId := QueryId (?pos + 1 + n)\<rparr>)"
    using Suc.IH[of ?p1] by simp
  have "[?pos + 1 ..< ?pos + 1 + Suc n] = (?pos + 1) # [?pos + 2 ..< ?pos + 2 + n]"
    by (simp add: upt_conv_Cons)
  then show ?case using step rest by simp
qed

text \<open>
  Claim C2.  When \<open>n\<close> ids remain within the id space (the position of the last id plus
  \<open>n\<close> does not pass the ceiling), \<open>n\<close> successive calls of \<open>getNextQueryId\<close> all
  return: the \<open>n\<close> ids are pairwise distinct, strictly increasing, and above the last id
  returned before.  When the calls used the space up, \<open>hasNext\<close> is false afterwards,
  and a call made when \<open>hasNext\<close> is false fails with \<open>QueryIdExhausted\<close> and returns
  no id.
\<close>

theorem query_ids_increasing:
  assumes "getQueryId (lastQueryId p) + n \<le> QUERY_ID_CEILING"
  shows "(case nextQueryIds n p of
            Inl e \<Rightarrow> False
          | Inr (ids, p') \<Rightarrow>
              length ids = n
            \<and> distinct ids
            \<and> sorted_wrt (\<lambda>a b. getQueryId a < getQueryId b) ids
            \<and> (\<forall>q \<in> set ids. getQueryId (lastQueryId p) < getQueryId q)
            \<and> (getQueryId (lastQueryId p) + n = QUERY_ID_CEILING \<longrightarrow> \<not> hasNext (lastQueryId p'))
            \<and> (\<not> hasNext (lastQueryId p') \<longrightarrow> getNextQueryId p' = Inl QueryIdExhausted))"
proof -
  let ?pos = "getQueryId (lastQueryId p)"
  have d: "distinct (map QueryId [?pos + 1 ..< ?pos + 1 + n])"
    by (simp add: distinct_map inj_on_def)
  have s: "sorted_wrt (\<lambda>a b. getQueryId a < getQueryId b) (map QueryId [?pos + 1 ..< ?pos + 1 + n])"
    unfolding sorted_wrt_map getQueryId.simps by (rule sorted_wrt_upt)
  show ?thesis
    using nextQueryIds_run[OF assms] d s
    by (auto simp: getNextQueryId_exhausted)
qed

theorem query_ids_increasing_witness:
  "nextQueryIds 2 \<lparr>database = \<lparr>pendingWithdrawals = [], processedWithdrawals = {},
        markedProcessing = [], markedFailed = []\<rparr>, lastQueryId = QueryId 8380413, sentBatches = []\<rparr>
   = Inr ([QueryId 8380414, QueryId 8380415],
       \<lparr>database = \<lparr>pendingWithdrawals = [], processedWithdrawals = {},
        markedProcessing = [], markedFailed = []\<rparr>, lastQueryId = QueryId 8380415, sentBatches = []\<rparr>)
 \<and> getNextQueryId \<lparr>database = \<lparr>pendingWithdrawals = [], processedWithdrawals = {},
        markedProcessing = [], markedFailed = []\<rparr>, lastQueryId = QueryId 8380415, sentBatches = []\<rparr>
   = Inl QueryIdExhausted"
  using query_ids_increasing [of "\<lparr>database = \<lparr>pendingWithdrawals = [], processedWithdrawals = {},
        markedProcessing = [], markedFailed = []\<rparr>, lastQueryId = QueryId 8380413, sentBatches = []\<rparr>" 2]
  by (simp add: QUERY_ID_CEILING_def numeral_2_eq_2 getNextQueryId_def)

subsection \<open>Building and sending a batch\<close>

lemma withdrawalMessagesLoop_eq:
  "withdrawalMessagesLoop parse ws messages wdb =
     (messages @
        map (\<lambda>w. \<lparr>mode = PAY_GAS_SEPARATELY + IGNORE_ERRORS, dest = projr (parse (wdAddress w)),
                  msgCoins = wdAmount w, bounce = False,
                  outBody = [CHR 0x00, CHR 0x00, CHR 0x00, CHR 0x00] @ ''Withdrawal: '' @ withdrawalId w\<rparr>)
          (filter (\<lambda>w. \<not> isl (parse (wdAddress w))) ws),
      wdb\<lparr>markedFailed := markedFailed wdb @
        map (\<lambda>w. (withdrawalId w, ''Invalid address: '' @ projl (parse (wdAddress w))))
          (filter (\<lambda>w. isl (parse (wdAddress w))) ws)\<rparr>)"
proof (induction ws arbitrary: messages wdb)
  case Nil
  then show ?case by simp
next
  case (Cons w ws)
  then show ?case
    by (cases "parse (wdAddress w)") (simp_all add: markWithdrawalFailed_def)
qed

lemma fold_processing:
  "fold (\<lambda>w. markWithdrawalProcessing (withdrawalId w)) ws wdb =
     wdb\<lparr>markedProcessing := markedProcessing wdb @ map withdrawalId ws\<rparr>"
  by (induction ws arbitrary: wdb) (simp_all add: markWithdrawalProcessing_def)

lemma fold_completed:
  "fold (\<lambda>w. markWithdrawalCompleted (withdrawalId w) txHash) ws wdb =
     wdb\<lparr>processedWithdrawals := processedWithdrawals wdb \<union> withdrawalId ` set ws,
         pendingWithdrawals :=
           filter (\<lambda>kv. fst kv \<notin> withdrawalId ` set ws) (pendingWithdrawals wdb)\<rparr>"
proof (induction ws arbitrary: wdb)
  case Nil
  then show ?case by simp
next
  case (Cons w ws)
  have "filter (\<lambda>kv. fst kv \<notin> withdrawalId ` set ws) (AList.delete (withdrawalId w) al)
      = filter (\<lambda>kv. fst kv \<notin> withdrawalId ` set (w # ws)) al" for al
    by (induction al) (auto simp: AList.delete_eq)
  note del = this
  have "fold (\<lambda>w. markWithdrawalCompleted (withdrawalId w) txHash) (w # ws) wdb
      = fold (\<lambda>w. markWithdrawalCompleted (withdrawalId w) txHash) ws
          (markWithdrawalCompleted (withdrawalId w) txHash wdb)"
    by simp
  also have "\<dots> = (markWithdrawalCompleted (withdrawalId w) txHash wdb)
      \<lparr>processedWithdrawals :=
         processedWithdrawals (markWithdrawalCompleted (withdrawalId w) txHash wdb)
           \<union> withdrawalId ` set ws,
       pendingWithdrawals :=
         filter (\<lambda>kv. fst kv \<notin> withdrawalId ` set ws)
           (pendingWithdrawals (markWithdrawalCompleted (withdrawalId w) txHash wdb))\<rparr>"
    by (rule Cons.IH)
  also have "\<dots> = wdb\<lparr>processedWithdrawals := processedWithdrawals wdb \<union> withdrawalId ` set (w # ws),
         pendingWithdrawals :=
           filter (\<lambda>kv. fst kv \<notin> withdrawalId ` set (w # ws)) (pendingWithdrawals wdb)\<rparr>"
    by (simp add: markWithdrawalCompleted_def del)
  finally show ?case .
qed

lemma filter_taken_keys:
  assumes "distinct (map f xs)"
  shows "filter (\<lambda>x. f x \<notin> set (take n (map f xs))) xs = drop n xs"
proof -
  have split: "xs = take n xs @ drop n xs" by simp
  have dist: "distinct (map f (take n xs) @ map f (drop n xs))"
    using assms by (metis append_take_drop_id map_append)
  have a: "filter (\<lambda>x. f x \<notin> set (map f (take n xs))) (take n xs) = []"
    by (simp add: filter_empty_conv)
  have b: "filter (\<lambda>x. f x \<notin> set (map f (take n xs))) (drop n xs) = drop n xs"
    using dist by (auto simp: filter_id_conv)
  have "filter (\<lambda>x. f x \<notin> set (map f (take n xs))) xs
      = filter (\<lambda>x. f x \<notin> set (map f (take n xs))) (take n xs @ drop n xs)"
    by simp
  also have "\<dots> = drop n xs" using a b by (simp only: filter_append append_Nil)
  finally show ?thesis by (simp add: take_map)
qed

lemma keyed_fetched_ids:
  "withdrawalsKeyed wdb \<Longrightarrow>
   withdrawalId ` set (getPendingWithdrawals n wdb) = set (take n (map fst (pendingWithdrawals wdb)))"
proof -
  assume "withdrawalsKeyed wdb"
  then have "map withdrawalId (map snd (pendingWithdrawals wdb)) = map fst (pendingWithdrawals wdb)"
    by (simp add: withdrawalsKeyed_def)
  then have "map withdrawalId (take n (map snd (pendingWithdrawals wdb)))
      = take n (map fst (pendingWithdrawals wdb))"
    by (metis take_map)
  then show ?thesis
    unfolding getPendingWithdrawals_def by (metis set_map)
qed

lemma keyed_remaining:
  assumes "withdrawalsKeyed wdb"
  shows "filter (\<lambda>kv. fst kv \<notin> withdrawalId ` set (getPendingWithdrawals n wdb)) (pendingWithdrawals wdb)
      = drop n (pendingWithdrawals wdb)"
  using assms filter_taken_keys[of fst "pendingWithdrawals wdb" n]
  by (simp add: keyed_fetched_ids withdrawalsKeyed_def)

lemma processBatch_eq:
  "processBatch parse sendBatch now p =
    (let ws = getPendingWithdrawals MAX_BATCH_SIZE (database p);
         msgs = map (\<lambda>w. \<lparr>mode = PAY_GAS_SEPARATELY + IGNORE_ERRORS, dest = projr (parse (wdAddress w)),
                  msgCoins = wdAmount w, bounce = False,
                  outBody = [CHR 0x00, CHR 0x00, CHR 0x00, CHR 0x00] @ ''Withdrawal: '' @ withdrawalId w\<rparr>)
                  (filter (\<lambda>w. \<not> isl (parse (wdAddress w))) ws);
         wdb2 = (database p)\<lparr>markedProcessing := markedProcessing (database p) @ map withdrawalId ws,
                   markedFailed := markedFailed (database p) @
                     map (\<lambda>w. (withdrawalId w, ''Invalid address: '' @ projl (parse (wdAddress w))))
                       (filter (\<lambda>w. isl (parse (wdAddress w))) ws)\<rparr>;
         q = QueryId (getQueryId (lastQueryId p) + 1);
         batch = \<lparr>batchMessages = msgs, batchSubwalletId = SUBWALLET_ID, batchQueryId = q,
                  batchTimeout = TIMEOUT, batchCreatedAt = now div 1000\<rparr>
     in if ws = [] then (Inr NoPendingWithdrawals, p)
        else if msgs = [] then (Inr NoValidMessages, p\<lparr>database := wdb2\<rparr>)
        else if \<not> hasNext (lastQueryId p) then (Inl QueryIdExhausted, p\<lparr>database := wdb2\<rparr>)
        else (case sendBatch batch of
                Some err \<Rightarrow> (Inl (SendFailed err), p\<lparr>database := wdb2, lastQueryId := q\<rparr>)
              | None \<Rightarrow>
                 (Inr BatchSent,
                  \<lparr>database = wdb2\<lparr>processedWithdrawals :=
                                    processedWithdrawals (database p) \<union> withdrawalId ` set ws,
                                  pendingWithdrawals :=
                                    filter (\<lambda>kv. fst kv \<notin> withdrawalId ` set ws)
                                      (pendingWithdrawals (database p))\<rparr>,
                   lastQueryId = q, sentBatches = sentBatches p @ [batch]\<rparr>)))"
proof (cases "hasNext (lastQueryId p)")
  case True
  then have "getQueryId (lastQueryId p) < QUERY_ID_CEILING"
    by (cases "lastQueryId p") simp
  then have step: "getNextQueryId (p\<lparr>database := w\<rparr>) =
      Inr (QueryId (getQueryId (lastQueryId p) + 1),
           p\<lparr>database := w, lastQueryId := QueryId (getQueryId (lastQueryId p) + 1)\<rparr>)" for w
    using getNextQueryId_step[of "p\<lparr>database := w\<rparr>"] by simp
  show ?thesis
    using True
    by (simp add: processBatch_def Let_def createWithdrawalMessages_def withdrawalMessagesLoop_eq
        fold_processing fold_completed step split: option.splits)
next
  case False
  then have "getNextQueryId (p\<lparr>database := w\<rparr>) = Inl QueryIdExhausted" for w
    by (simp add: getNextQueryId_def)
  then show ?thesis
    using False
    by (simp add: processBatch_def Let_def createWithdrawalMessages_def withdrawalMessagesLoop_eq
        fold_processing)
qed

text \<open>
  Claim C5.  With 300 pending withdrawals whose addresses all parse, a sequencer that has
  a next id and a network that accepts the submission, one call of \<open>processBatch\<close>
  sends one batch of exactly 254 messages, tagged with the one query id it took from the
  sequencer (the position advances by one), and leaves exactly the last 46 requests
  pending.
\<close>

theorem batch_of_300:
  assumes "withdrawalsKeyed (database p)"
    and "length (pendingWithdrawals (database p)) = 300"
    and "\<forall>kv \<in> set (pendingWithdrawals (database p)). \<not> isl (parse (wdAddress (snd kv)))"
    and "hasNext (lastQueryId p)"
    and "\<forall>b. sendBatch b = None"
  shows "(case processBatch parse sendBatch now p of
           (r, p') \<Rightarrow>
              r = Inr BatchSent
            \<and> (\<exists>b. sentBatches p' = sentBatches p @ [b] \<and> length (batchMessages b) = 254
                   \<and> batchQueryId b = lastQueryId p')
            \<and> getNext (lastQueryId p) = Some (lastQueryId p')
            \<and> getQueryId (lastQueryId p') = getQueryId (lastQueryId p) + 1
            \<and> pendingWithdrawals (database p') = drop 254 (pendingWithdrawals (database p))
            \<and> length (pendingWithdrawals (database p')) = 46)"
proof -
  let ?ws = "getPendingWithdrawals MAX_BATCH_SIZE (database p)"
  have len: "length ?ws = 254"
    using assms(2) by (simp add: getPendingWithdrawals_def MAX_BATCH_SIZE_def)
  have "set ?ws \<subseteq> snd ` set (pendingWithdrawals (database p))"
    unfolding getPendingWithdrawals_def using set_take_subset[of MAX_BATCH_SIZE "map snd (pendingWithdrawals (database p))"]
    by simp
  then have ok: "\<not> isl (parse (wdAddress w))" if "w \<in> set ?ws" for w
    using assms(3) that by auto
  then have all: "filter (\<lambda>w. \<not> isl (parse (wdAddress w))) ?ws = ?ws"
    by (simp add: filter_id_conv)
  have ne: "?ws \<noteq> []" using len by auto
  have rest: "filter (\<lambda>kv. fst kv \<notin> withdrawalId ` set ?ws) (pendingWithdrawals (database p))
      = drop 254 (pendingWithdrawals (database p))"
    using keyed_remaining[OF assms(1), of MAX_BATCH_SIZE] by (simp add: MAX_BATCH_SIZE_def)
  have nxt: "getNext (lastQueryId p) = Some (QueryId (getQueryId (lastQueryId p) + 1))"
    using assms(4) by (cases "lastQueryId p") simp
  show ?thesis
    using ne len all rest nxt assms(2,4,5)
    by (simp add: processBatch_eq Let_def)
qed

theorem batch_of_300_witness:
  "length (pendingWithdrawals (database (snd (processBatch Inr (\<lambda>b. None) 5000
      \<lparr>database = \<lparr>pendingWithdrawals =
           map (\<lambda>i. (replicate i (CHR ''w''),
                      \<lparr>wdUserId = ''user'', wdAddress = ''EQdest'', wdAmount = 1,
                       withdrawalId = replicate i (CHR ''w'')\<rparr>)) [0..<300],
         processedWithdrawals = {}, markedProcessing = [], markedFailed = []\<rparr>,
       lastQueryId = QueryId 0, sentBatches = []\<rparr>)))) = 46
 \<and> lastQueryId (snd (processBatch Inr (\<lambda>b. None) 5000
      \<lparr>database = \<lparr>pendingWithdrawals =
           map (\<lambda>i. (replicate i (CHR ''w''),
                      \<lparr>wdUserId = ''user'', wdAddress = ''EQdest'', wdAmount = 1,
                       withdrawalId = replicate i (CHR ''w'')\<rparr>)) [0..<300],
         processedWithdrawals = {}, markedProcessing = [], markedFailed = []\<rparr>,
       lastQueryId = QueryId 0, sentBatches = []\<rparr>)) = QueryId 1"
proof -
  let ?p = "\<lparr>database = \<lparr>pendingWithdrawals =
           map (\<lambda>i. (replicate i (CHR ''w''),
                      \<lparr>wdUserId = ''user'', wdAddress = ''EQdest'', wdAmount = 1,
                       withdrawalId = replicate i (CHR ''w'')\<rparr>)) [0..<300],
         processedWithdrawals = {}, markedProcessing = [], markedFailed = []\<rparr>,
       lastQueryId = QueryId 0, sentBatches = []\<rparr>"
  have inj: "inj_on (\<lambda>i. replicate i (CHR ''w'')) A" for A :: "nat set"
    by (rule inj_onI) (metis length_replicate)
  have keyed: "withdrawalsKeyed (database ?p)"
    by (simp add: withdrawalsKeyed_def comp_def distinct_map inj del: upt.simps)
  have len: "length (pendingWithdrawals (database ?p)) = 300"
    by (simp del: upt.simps)
  have ok: "\<forall>kv \<in> set (pendingWithdrawals (database ?p)). \<not> isl (Inr (wdAddress (snd kv)) :: string + Address)"
    by simp
  have hn: "hasNext (lastQueryId ?p)"
    by (simp add: QUERY_ID_CEILING_def)
  have acc: "\<forall>b :: Batch. (\<lambda>b. None :: string option) b = None"
    by simp
  show ?thesis
    using batch_of_300 [of ?p Inr "\<lambda>b. None" 5000, OF keyed len ok hn acc]
    by (cases "lastQueryId (snd (processBatch Inr (\<lambda>b. None) 5000 ?p))")
       (auto simp del: upt.simps split: prod.splits)
qed

text \<open>
  Claim C6.  \<open>createWithdrawalMessages\<close> never aborts: it returns one message for every
  withdrawal whose address parses, in order, and marks failed, with the reason
  \<open>Invalid address: ...\<close>, exactly the withdrawals whose address does not parse; nothing
  else in the database changes.  In \<open>processBatch\<close>, when at least one fetched address
  parses (and the sequencer has a next id and the network accepts), the batch sent holds
  exactly the messages of the parsable withdrawals.
\<close>

theorem parse_failure_isolated:
  "createWithdrawalMessages parse ws wdb =
     (map (\<lambda>w. \<lparr>mode = 3, dest = projr (parse (wdAddress w)), msgCoins = wdAmount w, bounce = False,
               outBody = [CHR 0x00, CHR 0x00, CHR 0x00, CHR 0x00] @ ''Withdrawal: '' @ withdrawalId w\<rparr>)
        (filter (\<lambda>w. \<not> isl (parse (wdAddress w))) ws),
      wdb\<lparr>markedFailed := markedFailed wdb @
        map (\<lambda>w. (withdrawalId w, ''Invalid address: '' @ projl (parse (wdAddress w))))
          (filter (\<lambda>w. isl (parse (wdAddress w))) ws)\<rparr>)
 \<and> ((\<exists>w \<in> set (getPendingWithdrawals MAX_BATCH_SIZE (database p)). \<not> isl (parse (wdAddress w)))
      \<and> hasNext (lastQueryId p) \<and> (\<forall>b. sendBatch b = None) \<longrightarrow>
      fst (processBatch parse sendBatch now p) = Inr BatchSent
    \<and> batchMessages (last (sentBatches (snd (processBatch parse sendBatch now p)))) =
        map (\<lambda>w. \<lparr>mode = 3, dest = projr (parse (wdAddress w)), msgCoins = wdAmount w, bounce = False,
               outBody = [CHR 0x00, CHR 0x00, CHR 0x00, CHR 0x00] @ ''Withdrawal: '' @ withdrawalId w\<rparr>)
          (filter (\<lambda>w. \<not> isl (parse (wdAddress w))) (getPendingWithdrawals MAX_BATCH_SIZE (database p)))
    \<and> markedFailed (database (snd (processBatch parse sendBatch now p))) =
        markedFailed (database p) @
        map (\<lambda>w. (withdrawalId w, ''Invalid address: '' @ projl (parse (wdAddress w))))
          (filter (\<lambda>w. isl (parse (wdAddress w))) (getPendingWithdrawals MAX_BATCH_SIZE (database p))))"
proof -
  have m: "PAY_GAS_SEPARATELY + IGNORE_ERRORS = 3"
    by (simp add: PAY_GAS_SEPARATELY_def IGNORE_ERRORS_def)
  have one: "createWithdrawalMessages parse ws wdb =
     (map (\<lambda>w. \<lparr>mode = 3, dest = projr (parse (wdAddress w)), msgCoins = wdAmount w, bounce = False,
               outBody = [CHR 0x00, CHR 0x00, CHR 0x00, CHR 0x00] @ ''Withdrawal: '' @ withdrawalId w\<rparr>)
        (filter (\<lambda>w. \<not> isl (parse (wdAddress w))) ws),
      wdb\<lparr>markedFailed := markedFailed wdb @
        map (\<lambda>w. (withdrawalId w, ''Invalid address: '' @ projl (parse (wdAddress w))))
          (filter (\<lambda>w. isl (parse (wdAddress w))) ws)\<rparr>)"
    by (simp add: createWithdrawalMessages_def withdrawalMessagesLoop_eq m)
  have ne: "filter P xs \<noteq> []" if "\<exists>x \<in> set xs. P x" for P and xs :: "WithdrawalRequest list"
    using that by (simp add: filter_empty_conv)
  have two: "fst (processBatch parse sendBatch now p) = Inr BatchSent
    \<and> batchMessages (last (sentBatches (snd (processBatch parse sendBatch now p)))) =
        map (\<lambda>w. \<lparr>mode = 3, dest = projr (parse (wdAddress w)), msgCoins = wdAmount w, bounce = False,
               outBody = [CHR 0x00, CHR 0x00, CHR 0x00, CHR 0x00] @ ''Withdrawal: '' @ withdrawalId w\<rparr>)
          (filter (\<lambda>w. \<not> isl (parse (wdAddress w))) (getPendingWithdrawals MAX_BATCH_SIZE (database p)))
    \<and> markedFailed (database (snd (processBatch parse sendBatch now p))) =
        markedFailed (database p) @
        map (\<lambda>w. (withdrawalId w, ''Invalid address: '' @ projl (parse (wdAddress w))))
          (filter (\<lambda>w. isl (parse (wdAddress w))) (getPendingWithdrawals MAX_BATCH_SIZE (database p)))"
    if ex: "\<exists>w \<in> set (getPendingWithdrawals MAX_BATCH_SIZE (database p)). \<not> isl (parse (wdAddress w))"
      and hn: "hasNext (lastQueryId p)" and acc: "\<forall>b. sendBatch b = None"
  proof -
    have f: "filter (\<lambda>w. \<not> isl (parse (wdAddress w))) (getPendingWithdrawals MAX_BATCH_SIZE (database p)) \<noteq> []"
      using ex by (rule ne)
    then have g: "getPendingWithdrawals MAX_BATCH_SIZE (database p) \<noteq> []" by auto
    show ?thesis using f g hn acc by (simp add: processBatch_eq Let_def m)
  qed
  show ?thesis using one two by blast
qed

theorem parse_failure_isolated_witness:
  "createWithdrawalMessages (\<lambda>s. if s = ''bad'' then Inl ''Error: unknown address type'' else Inr s)
     [\<lparr>wdUserId = ''user1'', wdAddress = ''EQa'', wdAmount = 10, withdrawalId = ''wd_001''\<rparr>,
      \<lparr>wdUserId = ''user2'', wdAddress = ''bad'', wdAmount = 25, withdrawalId = ''wd_002''\<rparr>,
      \<lparr>wdUserId = ''user3'', wdAddress = ''EQc'', wdAmount = 100, withdrawalId = ''wd_003''\<rparr>]
     \<lparr>pendingWithdrawals = [], processedWithdrawals = {}, markedProcessing = [], markedFailed = []\<rparr>
   = ([\<lparr>mode = 3, dest = ''EQa'', msgCoins = 10, bounce = False,
        outBody = [CHR 0x00, CHR 0x00, CHR 0x00, CHR 0x00] @ ''Withdrawal: wd_001''\<rparr>,
       \<lparr>mode = 3, dest = ''EQc'', msgCoins = 100, bounce = False,
        outBody = [CHR 0x00, CHR 0x00, CHR 0x00, CHR 0x00] @ ''Withdrawal: wd_003''\<rparr>],
      \<lparr>pendingWithdrawals = [], processedWithdrawals = {}, markedProcessing = [],
       markedFailed = [(''wd_002'', ''Invalid address: Error: unknown address type'')]\<rparr>)"
  using parse_failure_isolated [of
     "\<lambda>s. if s = ''bad'' then Inl ''Error: unknown address type'' else Inr s"
     "[\<lparr>wdUserId = ''user1'', wdAddress = ''EQa'', wdAmount = 10, withdrawalId = ''wd_001''\<rparr>,
      \<lparr>wdUserId = ''user2'', wdAddress = ''bad'', wdAmount = 25, withdrawalId = ''wd_002''\<rparr>,
      \<lparr>wdUserId = ''user3'', wdAddress = ''EQc'', wdAmount = 100, withdrawalId = ''wd_003''\<rparr>]"
     "\<lparr>pendingWithdrawals = [], processedWithdrawals = {}, markedProcessing = [], markedFailed = []\<rparr>"
     "\<lparr>database = \<lparr>pendingWithdrawals = [], processedWithdrawals = {}, markedProcessing = [],
        markedFailed = []\<rparr>, lastQueryId = QueryId 0, sentBatches = []\<rparr>" "\<lambda>b. None" 0]
  by simp

text \<open>
  Claim C10.  Whenever \<open>processBatch\<close> sends a batch, at least one fetched address
  parsed, and every fetched withdrawal is afterwards in the processed set and no longer
  pending; this includes each withdrawal whose address failed to parse, which is also
  among the withdrawals marked failed.
\<close>

theorem sent_batch_completes_all_fetched:
  assumes "fst (processBatch parse sendBatch now p) = Inr BatchSent"
  shows "(\<exists>w \<in> set (getPendingWithdrawals MAX_BATCH_SIZE (database p)). \<not> isl (parse (wdAddress w)))
   \<and> (\<forall>w \<in> set (getPendingWithdrawals MAX_BATCH_SIZE (database p)).
        withdrawalId w \<in> processedWithdrawals (database (snd (processBatch parse sendBatch now p)))
      \<and> withdrawalId w \<notin> fst ` set (pendingWithdrawals (database (snd (processBatch parse sendBatch now p))))
      \<and> (isl (parse (wdAddress w)) \<longrightarrow>
           (withdrawalId w, ''Invalid address: '' @ projl (parse (wdAddress w)))
             \<in> set (markedFailed (database (snd (processBatch parse sendBatch now p))))))"
proof -
  let ?ws = "getPendingWithdrawals MAX_BATCH_SIZE (database p)"
  let ?ok = "filter (\<lambda>w. \<not> isl (parse (wdAddress w))) ?ws"
  from assms have c: "?ws \<noteq> [] \<and> ?ok \<noteq> [] \<and> hasNext (lastQueryId p)"
    by (simp add: processBatch_eq Let_def split: if_splits option.splits)
  then have ex: "\<exists>w \<in> set ?ws. \<not> isl (parse (wdAddress w))"
    by (simp add: filter_empty_conv)
  from assms c have acc: "\<exists>b. sendBatch b = None"
    by (auto simp add: processBatch_eq Let_def split: if_splits option.splits)
  have "withdrawalId w \<in> processedWithdrawals (database (snd (processBatch parse sendBatch now p)))
      \<and> withdrawalId w \<notin> fst ` set (pendingWithdrawals (database (snd (processBatch parse sendBatch now p))))
      \<and> (isl (parse (wdAddress w)) \<longrightarrow>
           (withdrawalId w, ''Invalid address: '' @ projl (parse (wdAddress w)))
             \<in> set (markedFailed (database (snd (processBatch parse sendBatch now p)))))"
    if "w \<in> set ?ws" for w
    using assms c that
    by (auto simp add: processBatch_eq Let_def split: if_splits option.splits)
  then show ?thesis using ex by blast
qed

theorem sent_batch_completes_all_fetched_witness:
  "fst (processBatch
      (\<lambda>s. if s = ''bad'' then Inl ''Error: unknown address type'' else Inr s) (\<lambda>b. None) 5000
      \<lparr>database = \<lparr>pendingWithdrawals =
          [(''wd_001'', \<lparr>wdUserId = ''user1'', wdAddress = ''EQa'', wdAmount = 10, withdrawalId = ''wd_001''\<rparr>),
           (''wd_002'', \<lparr>wdUserId = ''user2'', wdAddress = ''bad'', wdAmount = 25, withdrawalId = ''wd_002''\<rparr>)],
         processedWithdrawals = {}, markedProcessing = [], markedFailed = []\<rparr>,
       lastQueryId = QueryId 0, sentBatches = []\<rparr>) = Inr BatchSent
 \<and> database (snd (processBatch
      (\<lambda>s. if s = ''bad'' then Inl ''Error: unknown address type'' else Inr s) (\<lambda>b. None) 5000
      \<lparr>database = \<lparr>pendingWithdrawals =
          [(''wd_001'', \<lparr>wdUserId = ''user1'', wdAddress = ''EQa'', wdAmount = 10, withdrawalId = ''wd_001''\<rparr>),
           (''wd_002'', \<lparr>wdUserId = ''user2'', wdAddress = ''bad'', wdAmount = 25, withdrawalId = ''wd_002''\<rparr>)],
         processedWithdrawals = {}, markedProcessing = [], markedFailed = []\<rparr>,
       lastQueryId = QueryId 0, sentBatches = []\<rparr>))
   = \<lparr>pendingWithdrawals = [], processedWithdrawals = {''wd_001'', ''wd_002''},
      markedProcessing = [''wd_001'', ''wd_002''],
      markedFailed = [(''wd_002'', ''Invalid address: Error: unknown address type'')]\<rparr>"
  using sent_batch_completes_all_fetched [of
      "\<lambda>s. if s = ''bad'' then Inl ''Error: unknown address type'' else Inr s" "\<lambda>b. None" 5000
      "\<lparr>database = \<lparr>pendingWithdrawals =
          [(''wd_001'', \<lparr>wdUserId = ''user1'', wdAddress = ''EQa'', wdAmount = 10, withdrawalId = ''wd_001''\<rparr>),
           (''wd_002'', \<lparr>wdUserId = ''user2'', wdAddress = ''bad'', wdAmount = 25, withdrawalId = ''wd_002''\<rparr>)],
         processedWithdrawals = {}, markedProcessing = [], markedFailed = []\<rparr>,
       lastQueryId = QueryId 0, sentBatches = []\<rparr>"]
  by (simp add: processBatch_def Let_def getPendingWithdrawals_def MAX_BATCH_SIZE_def
      markWithdrawalProcessing_def createWithdrawalMessages_def markWithdrawalFailed_def
      getNextQueryId_def QUERY_ID_CEILING_def markWithdrawalCompleted_def insert_commute)

section \<open>Verified properties of the deposit address generator\<close>

subsection \<open>Repeated allocation\<close>

lemma getAddressForUser_created:
  "address \<noteq> [] \<Longrightarrow>
   getAddressForUser (createUserAddress user address subwalletId adb) user = Some address"
  by (simp add: getAddressForUser_def createUserAddress_def update_conv')

lemma generateDepositAddress_stored:
  "getAddressForUser (mappingDb g) user = Some address \<Longrightarrow>
   generateDepositAddress derive walletAddress user g = (Inr address, g)"
  by (simp add: generateDepositAddress_def)

lemma generateDepositAddress_returns:
  assumes "generateDepositAddress derive walletAddress user g = (Inr address, g')"
    and "address \<noteq> []"
  shows "getAddressForUser (mappingDb g') user = Some address"
proof (cases "getAddressForUser (mappingDb g) user")
  case None
  with assms(1) obtain subwalletId g1 where
    g': "g' = g1\<lparr>mappingDb := createUserAddress user address subwalletId (mappingDb g1)\<rparr>"
    by (auto simp: generateDepositAddress_def Let_def split: sum.splits prod.splits)
  show ?thesis
    unfolding g' using assms(2) by (simp add: getAddressForUser_created)
next
  case (Some existing)
  with assms(1) show ?thesis
    by (simp add: generateDepositAddress_def)
qed

text \<open>
  Claim C9.  Whatever the block that binds the subwallet id computes (\<open>derive\<close>,
  \<open>derive'\<close>) and whatever address the wallet gives (\<open>walletAddress\<close>,
  \<open>walletAddress'\<close>): once \<open>createUserAddress\<close> has stored a subwallet id and a non-empty
  address for a user, a call of \<open>generateDepositAddress\<close> for that user returns exactly the
  stored address and leaves the generator, and with it the stored subwallet id, unchanged;
  and when a call returns a non-empty address for a user, a second call for the same user
  returns the same address and leaves the generator as the first call left it.  The second
  call never consults the block: its result does not depend on \<open>derive'\<close>.
\<close>

theorem repeat_allocation_returns_stored:
  assumes "address \<noteq> []"
  shows "generateDepositAddress derive walletAddress user
           (g\<lparr>mappingDb := createUserAddress user address subwalletId (mappingDb g)\<rparr>)
         = (Inr address, g\<lparr>mappingDb := createUserAddress user address subwalletId (mappingDb g)\<rparr>)
   \<and> map_of (userToSubwalletId (createUserAddress user address subwalletId (mappingDb g))) user
         = Some subwalletId
   \<and> (generateDepositAddress derive walletAddress user g = (Inr address, g') \<longrightarrow>
        generateDepositAddress derive' walletAddress' user g' = (Inr address, g')
      \<and> map_of (userToAddress (mappingDb g')) user = Some address)"
proof -
  have one: "generateDepositAddress derive walletAddress user
           (g\<lparr>mappingDb := createUserAddress user address subwalletId (mappingDb g)\<rparr>)
         = (Inr address, g\<lparr>mappingDb := createUserAddress user address subwalletId (mappingDb g)\<rparr>)"
    using assms by (simp add: generateDepositAddress_stored getAddressForUser_created)
  have two: "map_of (userToSubwalletId (createUserAddress user address subwalletId (mappingDb g))) user
         = Some subwalletId"
    by (simp add: createUserAddress_def update_conv')
  have three: "generateDepositAddress derive' walletAddress' user g' = (Inr address, g')
      \<and> map_of (userToAddress (mappingDb g')) user = Some address"
    if first: "generateDepositAddress derive walletAddress user g = (Inr address, g')"
  proof -
    have stored: "getAddressForUser (mappingDb g') user = Some address"
      using first assms by (rule generateDepositAddress_returns)
    then have "map_of (userToAddress (mappingDb g')) user = Some address"
      by (auto simp: getAddressForUser_def split: option.splits if_splits)
    then show ?thesis using stored by (simp add: generateDepositAddress_stored)
  qed
  show ?thesis using one two three by blast
qed

theorem repeat_allocation_returns_stored_witness:
  "generateDepositAddress sequentialDerivation
     (\<lambda>i. if i = 4270 then ''EQwallet4270'' else ''EQother'') ''user_alice''
     \<lparr>mappingDb = \<lparr>userToAddress = [], addressToUser = [], userToSubwalletId = [], nextUserId = 1\<rparr>,
      baseSubwalletId = 4269\<rparr>
   = (Inr ''EQwallet4270'',
      \<lparr>mappingDb = \<lparr>userToAddress = [(''user_alice'', ''EQwallet4270'')],
                    addressToUser = [(''EQwallet4270'', ''user_alice'')],
                    userToSubwalletId = [(''user_alice'', 4270)], nextUserId = 2\<rparr>,
       baseSubwalletId = 4269\<rparr>)
 \<and> generateDepositAddress sequentialDerivation (\<lambda>i. ''EQother'') ''user_alice''
     \<lparr>mappingDb = \<lparr>userToAddress = [(''user_alice'', ''EQwallet4270'')],
                   addressToUser = [(''EQwallet4270'', ''user_alice'')],
                   userToSubwalletId = [(''user_alice'', 4270)], nextUserId = 2\<rparr>,
      baseSubwalletId = 4269\<rparr>
   = (Inr ''EQwallet4270'',
      \<lparr>mappingDb = \<lparr>userToAddress = [(''user_alice'', ''EQwallet4270'')],
                    addressToUser = [(''EQwallet4270'', ''user_alice'')],
                    userToSubwalletId = [(''user_alice'', 4270)], nextUserId = 2\<rparr>,
       baseSubwalletId = 4269\<rparr>)"
proof -
  let ?wa = "\<lambda>i::int. if i = 4270 then ''EQwallet4270'' else ''EQother''"
  let ?g0 = "\<lparr>mappingDb = \<lparr>userToAddress = [], addressToUser = [], userToSubwalletId = [],
                            nextUserId = 1\<rparr>, baseSubwalletId = 4269\<rparr>"
  let ?g1 = "\<lparr>mappingDb = \<lparr>userToAddress = [(''user_alice'', ''EQwallet4270'')],
                   addressToUser = [(''EQwallet4270'', ''user_alice'')],
                   userToSubwalletId = [(''user_alice'', 4270)], nextUserId = 2\<rparr>,
      baseSubwalletId = 4269\<rparr>"
  have first: "generateDepositAddress sequentialDerivation ?wa ''user_alice'' ?g0
      = (Inr ''EQwallet4270'', ?g1)"
    by (simp add: generateDepositAddress_def getAddressForUser_def sequentialDerivation_def
        getNextUserIdNumber_def createUserAddress_def Let_def numeral_2_eq_2)
  have ne: "''EQwallet4270'' \<noteq> []" by simp
  show ?thesis
    using repeat_allocation_returns_stored [OF ne, where derive = sequentialDerivation
        and walletAddress = ?wa and user = "''user_alice''" and g = ?g0 and subwalletId = 4270
        and g' = ?g1 and derive' = sequentialDerivation and walletAddress' = "\<lambda>i. ''EQother''"]
      first
    by simp
qed

subsection \<open>The two readings of the ill-formed block\<close>

text \<open>
  The loop stops only at an id that no stored mapping holds.
\<close>

lemma subwalletLoop_fresh:
  "subwalletLoop user base nonce mappings = Inr s \<Longrightarrow> \<not> list_ex (\<lambda>m. snd (snd m) = s) mappings"
proof (induction user base nonce mappings rule: subwalletLoop.induct)
  case (1 user base nonce mappings)
  define h where "h = readUInt32BE0 (sha256 (user @ decimalInt base @ decimal nonce))"
  define sub where "sub = (if h = 0 then base else h)"
  have eq: "subwalletLoop user base nonce mappings =
      (if nonce + 1 \<ge> 1000 then Inl (NoUniqueSubwalletId user)
       else if list_ex (\<lambda>m. snd (snd m) = sub) mappings
            then subwalletLoop user base (nonce + 1) mappings
            else Inr sub)"
    unfolding h_def sub_def by (subst subwalletLoop.simps) (simp only: Let_def)
  show ?case
  proof (cases "list_ex (\<lambda>m. snd (snd m) = sub) mappings")
    case True
    with "1.prems" eq have small: "\<not> nonce + 1 \<ge> 1000"
      and rec: "subwalletLoop user base (nonce + 1) mappings = Inr s"
      by (auto split: if_splits)
    show ?thesis
      using "1.IH"[OF h_def sub_def refl small True rec] .
  next
    case False
    with "1.prems" eq have "s = sub" by (auto split: if_splits)
    with False show ?thesis by simp
  qed
qed

text \<open>
  The user ids \<open>user_11966\<close> and \<open>user_76833\<close> with the base id 4269: SHA-256 of the
  user id and the base id begins with the bytes \<open>6e502999\<close> for both; with the nonce 0
  appended the digests begin with \<open>4b8a8645\<close> and \<open>890bcc58\<close>.
\<close>

lemma decimalInt_4269: "decimalInt 4269 = ''4269''"
  by code_simp

lemma decimal_0: "decimal 0 = ''0''"
  by code_simp

lemma hash_user_11966_nonce0: "readUInt32BE0 (sha256 ''user_1196642690'') = 1267369541"
  by code_simp

lemma hash_user_11966: "readUInt32BE0 (sha256 ''user_119664269'') = 1850747289"
  by code_simp

lemma hash_user_76833_nonce0: "readUInt32BE0 (sha256 ''user_7683342690'') = 2299251800"
  by code_simp

lemma hash_user_76833: "readUInt32BE0 (sha256 ''user_768334269'') = 1850747289"
  by code_simp

lemma loop_user_11966: "subwalletLoop ''user_11966'' 4269 0 [] = Inr 1267369541"
  by (subst subwalletLoop.simps)
     (simp add: Let_def decimalInt_4269 decimal_0 hash_user_11966_nonce0)

lemma loop_user_76833:
  "snd (snd m) \<noteq> 2299251800 \<Longrightarrow> subwalletLoop ''user_76833'' 4269 0 [m] = Inr 2299251800"
  by (subst subwalletLoop.simps)
     (simp add: Let_def decimalInt_4269 decimal_0 hash_user_76833_nonce0)

text \<open>
  Allocated one after the other by a fresh generator, the two users are stored with the
  distinct ids 1267369541 and 2299251800 when the loop's id is the one stored, and both
  with the id 1850747289, hence with one address, when the declaration after the loop is.
  What the function stores for distinct users is therefore not determined by the source.
\<close>

lemma loop_reading_distinct_ids:
  "userToSubwalletId (mappingDb (snd (generateDepositAddress loopDerivation walletAddress ''user_76833''
     (snd (generateDepositAddress loopDerivation walletAddress ''user_11966''
        \<lparr>mappingDb = \<lparr>userToAddress = [], addressToUser = [], userToSubwalletId = [], nextUserId = 1\<rparr>,
         baseSubwalletId = 4269\<rparr>)))))
   = [(''user_11966'', 1267369541), (''user_76833'', 2299251800)]"
  by (simp add: generateDepositAddress_def getAddressForUser_def getAllMappings_def
      List.map_filter_simps loopDerivation_def loop_user_11966 loop_user_76833 Let_def
      createUserAddress_def)

lemma redeclared_reading_same_id:
  "userToSubwalletId (mappingDb (snd (generateDepositAddress redeclaredDerivation walletAddress ''user_76833''
     (snd (generateDepositAddress redeclaredDerivation walletAddress ''user_11966''
        \<lparr>mappingDb = \<lparr>userToAddress = [], addressToUser = [], userToSubwalletId = [], nextUserId = 1\<rparr>,
         baseSubwalletId = 4269\<rparr>)))))
   = [(''user_11966'', 1850747289), (''user_76833'', 1850747289)]"
  by (simp add: generateDepositAddress_def getAddressForUser_def getAllMappings_def
      List.map_filter_simps redeclaredDerivation_def loop_user_11966 loop_user_76833 Let_def
      decimalInt_4269 hash_user_11966 hash_user_76833 createUserAddress_def)

end
